theory Spec2Isabelle
  imports Complex_Main
begin

chapter \<open>The program\<close>

section \<open>JavaScript strings\<close>

text \<open>
  A JavaScript string is a sequence of UTF-16 code units; a code unit is modelled by a
  natural number. Several heading constants of the program lie outside Latin-1, so
  8-bit characters would not do. \<open>js\<close> turns an ASCII literal into code units.
\<close>

type_synonym jsstring = "nat list"

definition js :: "string \<Rightarrow> jsstring" where
  "js s = map of_char s"

text \<open>
  White space as \<open>String.prototype.trim\<close> and the regular expression class \<open>\s\<close> see it:
  the WhiteSpace and LineTerminator code points of ECMAScript.
\<close>

definition isWhiteSpace :: "nat \<Rightarrow> bool" where
  "isWhiteSpace c \<longleftrightarrow>
     c \<in> set [9, 10, 11, 12, 13, 32, 160, 5760, 8232, 8233, 8239, 8287, 12288, 65279]
     \<or> (8192 \<le> c \<and> c \<le> 8202)"

definition trim :: "jsstring \<Rightarrow> jsstring" where
  "trim s = rev (dropWhile isWhiteSpace (rev (dropWhile isWhiteSpace s)))"

text \<open>
  \<open>String.prototype.toLowerCase\<close> folds by the Unicode case tables of the runtime. Like
  the digest and the date parser further down it is not part of the program: every
  function that calls it takes it as its parameter \<open>toLowerCase\<close>, and what is proved holds
  for every such function, the runtime's among them.

  \<open>latin1_toLowerCase\<close> is the runtime's function on strings whose code units all lie
  below 256 (Basic Latin and the Latin-1 Supplement). It runs the examples, whose folded
  texts are ASCII.
\<close>

definition latin1_toLowerCase_unit :: "nat \<Rightarrow> nat" where
  "latin1_toLowerCase_unit c =
     (if (65 \<le> c \<and> c \<le> 90) \<or> (192 \<le> c \<and> c \<le> 222 \<and> c \<noteq> 215) then c + 32 else c)"

definition latin1_toLowerCase :: "jsstring \<Rightarrow> jsstring" where
  "latin1_toLowerCase s = map latin1_toLowerCase_unit s"

fun startsWith :: "jsstring \<Rightarrow> jsstring \<Rightarrow> bool" where
  "startsWith s [] = True"
| "startsWith [] (p # ps) = False"
| "startsWith (c # cs) (p # ps) = (c = p \<and> startsWith cs ps)"

fun str_includes :: "jsstring \<Rightarrow> jsstring \<Rightarrow> bool" where
  "str_includes [] p = (p = [])"
| "str_includes (c # cs) p = (startsWith (c # cs) p \<or> str_includes cs p)"

text \<open>\<open>s.split(sep)\<close> for a separator of one code unit, and \<open>parts.join(sep)\<close>.\<close>

fun js_split :: "jsstring \<Rightarrow> nat \<Rightarrow> jsstring list" where
  "js_split [] sep = [[]]"
| "js_split (c # cs) sep =
     (if c = sep then [] # js_split cs sep
      else (case js_split cs sep of
              [] \<Rightarrow> [[c]]
            | x # xs \<Rightarrow> (c # x) # xs))"

fun join :: "jsstring list \<Rightarrow> jsstring \<Rightarrow> jsstring" where
  "join [] sep = []"
| "join [x] sep = x"
| "join (x # y # ys) sep = x @ sep @ join (y # ys) sep"

section \<open>Content blocks\<close>

text \<open>
  A block of the document store: its id, its \<open>type\<close> tag, and the \<open>plain_text\<close> of each
  element of \<open>block[block.type].rich_text\<close> (empty for block types that carry no text;
  a heading, paragraph or list item always carries the array).
\<close>

record block =
  block_id :: jsstring
  btype :: jsstring
  rich_text :: "jsstring list"

text \<open>\<open>rich_text.map(t => t.plain_text).join('')\<close>\<close>

definition plain_text :: "block \<Rightarrow> jsstring" where
  "plain_text b = concat (rich_text b)"

section \<open>Section scanner: \<open>findProjectInfoSection\<close>\<close>

record found_section =
  startIndex :: int
  endIndex :: int
  heading :: block

text \<open>
  The \<open>for\<close> loop of \<open>findProjectInfoSection\<close>: the blocks still to visit, the loop index
  \<open>i\<close> and the variable \<open>projectInfoIndex\<close> (\<open>-1\<close> while nothing was found). It returns
  \<open>projectInfoIndex\<close> and \<open>nextHeadingIndex\<close> as the loop leaves them; \<open>break\<close> is the
  branch that returns at once.
\<close>

fun findProjectInfoSection_loop ::
  "(jsstring \<Rightarrow> jsstring) \<Rightarrow> block list \<Rightarrow> int \<Rightarrow> int \<Rightarrow> int \<times> int" where
  "findProjectInfoSection_loop toLowerCase [] i projectInfoIndex = (projectInfoIndex, -1)"
| "findProjectInfoSection_loop toLowerCase (block # rest) i projectInfoIndex =
     (if str_includes (btype block) (js ''heading'') then
        (let text = trim (toLowerCase (plain_text block)) in
         if str_includes text (js ''project information'') \<or> str_includes text (js ''project info'')
         then findProjectInfoSection_loop toLowerCase rest (i + 1) i
         else if projectInfoIndex \<noteq> -1 then (projectInfoIndex, i)
         else findProjectInfoSection_loop toLowerCase rest (i + 1) projectInfoIndex)
      else findProjectInfoSection_loop toLowerCase rest (i + 1) projectInfoIndex)"

definition findProjectInfoSection ::
  "(jsstring \<Rightarrow> jsstring) \<Rightarrow> block list \<Rightarrow> found_section option" where
  "findProjectInfoSection toLowerCase blocks =
     (case findProjectInfoSection_loop toLowerCase blocks 0 (-1) of
        (projectInfoIndex, nextHeadingIndex) \<Rightarrow>
          if projectInfoIndex = -1 then None
          else Some \<lparr> startIndex = projectInfoIndex,
                      endIndex = (if nextHeadingIndex = -1 then int (length blocks)
                                  else nextHeadingIndex),
                      heading = blocks ! nat projectInfoIndex \<rparr>)"

text \<open>The two tests the loop makes on a block, named for the statements below.\<close>

definition is_heading :: "block \<Rightarrow> bool" where
  "is_heading b = str_includes (btype b) (js ''heading'')"

definition is_project_info_heading :: "(jsstring \<Rightarrow> jsstring) \<Rightarrow> block \<Rightarrow> bool" where
  "is_project_info_heading toLowerCase b \<longleftrightarrow>
     is_heading b \<and>
     (str_includes (trim (toLowerCase (plain_text b))) (js ''project information'')
      \<or> str_includes (trim (toLowerCase (plain_text b))) (js ''project info''))"

section \<open>Extractors: \<open>generateLineKey\<close> and \<open>shouldProcessMeeting\<close>\<close>

text \<open>
  \<open>generateLineKey\<close>. The digest
  \<open>crypto.createHash('sha256').update(content).digest('hex')\<close> belongs to the runtime,
  not to the program: it is the parameter \<open>sha256_hex\<close>.
\<close>

definition generateLineKey ::
  "(jsstring \<Rightarrow> jsstring) \<Rightarrow> (jsstring \<Rightarrow> jsstring) \<Rightarrow> jsstring \<Rightarrow> jsstring \<Rightarrow> jsstring" where
  "generateLineKey sha256_hex toLowerCase meetingId todoText =
     (let normalized = toLowerCase (trim todoText);
          content = meetingId @ js '':'' @ normalized
      in sha256_hex content)"

text \<open>
  The fields of a meeting page that \<open>shouldProcessMeeting\<close> reads:
  \<open>properties.Processed?.checkbox\<close>, \<open>properties['Last Processed']?.date?.start\<close>
  (\<open>None\<close> where the chain yields \<open>undefined\<close> or \<open>null\<close>) and \<open>last_edited_time\<close>.
\<close>

record meeting_page =
  Processed :: "bool option"
  Last_Processed :: "jsstring option"
  last_edited_time :: jsstring

text \<open>
  A \<open>Date\<close> is its time value in milliseconds, \<open>None\<close> for an invalid date (\<open>NaN\<close>).
  \<open>a > b\<close> on two dates compares the time values; a comparison with \<open>NaN\<close> is false.
\<close>

type_synonym jsdate = "int option"

definition date_gt :: "jsdate \<Rightarrow> jsdate \<Rightarrow> bool" where
  "date_gt a b = (case (a, b) of (Some x, Some y) \<Rightarrow> y < x | _ \<Rightarrow> False)"

text \<open>\<open>new Date(s)\<close>, the runtime's date parser, is the parameter \<open>new_Date\<close>.\<close>

definition shouldProcessMeeting :: "(jsstring \<Rightarrow> jsdate) \<Rightarrow> meeting_page \<Rightarrow> bool" where
  "shouldProcessMeeting new_Date page =
     (let processed = (case Processed page of Some c \<Rightarrow> c | None \<Rightarrow> False);
          lastProcessed = Last_Processed page;
          lastEdited = new_Date (last_edited_time page)
      in if \<not> processed then True
         else (case lastProcessed of
                 Some s \<Rightarrow>
                   if s \<noteq> [] \<and> date_gt lastEdited (new_Date s) then True else False
               | None \<Rightarrow> False))"

section \<open>Parsers: \<open>parsePriority\<close>\<close>

definition highKeywords :: "jsstring list" where
  "highKeywords = map js
     [''urgent'', ''asap'', ''critical'', ''emergency'', ''immediately'',
      ''high priority'', ''top priority'', ''blocking'', ''must have'',
      ''important'', ''crucial'']"

definition lowKeywords :: "jsstring list" where
  "lowKeywords = map js
     [''nice to have'', ''when you can'', ''low priority'',
      ''optional'', ''future'', ''someday'', ''backlog'',
      ''eventually'', ''if time'']"

text \<open>The counting loops: \<open>for (const keyword of keywords) if (...) count++\<close>.\<close>

fun count_keywords :: "jsstring \<Rightarrow> jsstring list \<Rightarrow> nat \<Rightarrow> nat" where
  "count_keywords textLower [] count = count"
| "count_keywords textLower (keyword # rest) count =
     count_keywords textLower rest
       (if str_includes textLower keyword then count + 1 else count)"

definition parsePriority :: "(jsstring \<Rightarrow> jsstring) \<Rightarrow> jsstring \<Rightarrow> jsstring" where
  "parsePriority toLowerCase text =
     (let textLower = toLowerCase text;
          highCount = count_keywords textLower highKeywords 0;
          lowCount = count_keywords textLower lowKeywords 0
      in if highCount \<ge> 2 \<or> str_includes textLower (js ''high priority'')
            \<or> str_includes textLower (js ''urgent'')
         then js ''High''
         else if lowCount \<ge> 1 \<or> str_includes textLower (js ''low priority'')
         then js ''Low''
         else js ''Medium'')"

text \<open>
  The high-priority rule in words: two or more of the high keywords occur in the
  case-folded text, or \<open>high priority\<close> occurs, or \<open>urgent\<close> occurs.
\<close>

definition high_priority_rule :: "(jsstring \<Rightarrow> jsstring) \<Rightarrow> jsstring \<Rightarrow> bool" where
  "high_priority_rule toLowerCase text \<longleftrightarrow>
     2 \<le> length (filter (str_includes (toLowerCase text)) highKeywords)
     \<or> str_includes (toLowerCase text) (js ''high priority'')
     \<or> str_includes (toLowerCase text) (js ''urgent'')"

section \<open>Project inference\<close>

text \<open>\<open>PROJECT_KEYWORDS\<close>, in the order \<open>Object.entries\<close> lists it.\<close>

definition PROJECT_KEYWORDS :: "(jsstring \<times> jsstring list) list" where
  "PROJECT_KEYWORDS =
     [(js ''ClickUp'', map js [''clickup'', ''click up'', ''click-up'', ''cu'', ''cuarc'']),
      (js ''Docebo'', map js [''docebo'', ''lms'', ''learning management'', ''cogent uni'', ''uni'']),
      (js ''HubSpot'', map js [''hubspot'', ''crm'', ''hs'', ''hub spot'']),
      (js ''AI Sales'', map js [''ai sales'', ''retell'', ''retellai'', ''retell ai'', ''sai'', ''sales ai'']),
      (js ''Insider Knowledge'', map js [''insider'', ''insider knowledge'', ''ik'', ''merlin'']),
      (js ''PD OTN'', map js [''pd'', ''otn'', ''pd otn'', ''professional development'']),
      (js ''Podcast'', map js [''podcast'', ''episode'', ''recording'', ''riverside'']),
      (js ''Quarterly Economic Review'', map js [''qer'', ''economic review'', ''quarterly'', ''eco repo'']),
      (js ''Support/Other'', [])]"

text \<open>
  The regular expression \<open>/#proj:(\w+)/i\<close>. \<open>\w\<close> is \<open>[A-Za-z0-9_]\<close>. Under the \<open>i\<close> flag
  (without \<open>u\<close>) two code units match when their canonical forms agree: the upper-case
  form, where a non-ASCII code unit never canonicalises to an ASCII one.
\<close>

definition isWordChar :: "nat \<Rightarrow> bool" where
  "isWordChar c \<longleftrightarrow> (48 \<le> c \<and> c \<le> 57) \<or> (65 \<le> c \<and> c \<le> 90) \<or> c = 95 \<or> (97 \<le> c \<and> c \<le> 122)"

definition canonicalize :: "nat \<Rightarrow> nat" where
  "canonicalize c = (if 97 \<le> c \<and> c \<le> 122 then c - 32 else c)"

fun startsWith_ci :: "jsstring \<Rightarrow> jsstring \<Rightarrow> bool" where
  "startsWith_ci s [] = True"
| "startsWith_ci [] (p # ps) = False"
| "startsWith_ci (c # cs) (p # ps) = (canonicalize c = canonicalize p \<and> startsWith_ci cs ps)"

text \<open>
  \<open>text.match(/#proj:(\w+)/i)\<close>: the capture group of the leftmost match, \<open>None\<close> when the
  expression matches nowhere. A \<open>#proj:\<close> that no word character follows is no match, and
  the search goes on to the right.
\<close>

fun match_proj_tag :: "jsstring \<Rightarrow> jsstring option" where
  "match_proj_tag [] = None"
| "match_proj_tag (c # cs) =
     (if startsWith_ci (c # cs) (js ''#proj:'')
         \<and> takeWhile isWordChar (drop 6 (c # cs)) \<noteq> []
      then Some (takeWhile isWordChar (drop 6 (c # cs)))
      else match_proj_tag cs)"

record inferred =
  project :: jsstring
  confidence :: real

text \<open>The inner loop of \<open>extractHashtagProject\<close> over the entries of the table.\<close>

fun find_project ::
  "(jsstring \<Rightarrow> jsstring) \<Rightarrow> jsstring \<Rightarrow> (jsstring \<times> jsstring list) list
     \<Rightarrow> jsstring option" where
  "find_project toLowerCase projectName [] = None"
| "find_project toLowerCase projectName ((proj, keywords) # rest) =
     (if str_includes (toLowerCase proj) projectName
         \<or> list_ex (\<lambda>kw. str_includes kw projectName) keywords
      then Some proj
      else find_project toLowerCase projectName rest)"

fun extractHashtagProject :: "(jsstring \<Rightarrow> jsstring) \<Rightarrow> block list \<Rightarrow> inferred option" where
  "extractHashtagProject toLowerCase [] = None"
| "extractHashtagProject toLowerCase (block # rest) =
     (if btype block = js ''paragraph'' then
        (case match_proj_tag (plain_text block) of
           Some m \<Rightarrow>
             (case find_project toLowerCase (toLowerCase m) PROJECT_KEYWORDS of
                Some proj \<Rightarrow> Some \<lparr> project = proj, confidence = 1 \<rparr>
              | None \<Rightarrow> extractHashtagProject toLowerCase rest)
         | None \<Rightarrow> extractHashtagProject toLowerCase rest)
      else extractHashtagProject toLowerCase rest)"

text \<open>The loop of \<open>inferProject\<close> over the table, with its fall-through result.\<close>

fun infer_from_title :: "jsstring \<Rightarrow> (jsstring \<times> jsstring list) list \<Rightarrow> inferred" where
  "infer_from_title titleLower [] = \<lparr> project = js ''Support/Other'', confidence = 0 \<rparr>"
| "infer_from_title titleLower ((proj, keywords) # rest) =
     (if proj = js ''Support/Other'' then infer_from_title titleLower rest
      else if list_ex (\<lambda>keyword. str_includes titleLower keyword) keywords
      then \<lparr> project = proj, confidence = 8 / 10 \<rparr>
      else infer_from_title titleLower rest)"

definition inferProject :: "(jsstring \<Rightarrow> jsstring) \<Rightarrow> jsstring \<Rightarrow> block list \<Rightarrow> inferred" where
  "inferProject toLowerCase meetingTitle blocks =
     (case extractHashtagProject toLowerCase blocks of
        Some hashtagProject \<Rightarrow> hashtagProject
      | None \<Rightarrow> infer_from_title (toLowerCase meetingTitle) PROJECT_KEYWORDS)"

text \<open>
  A token matches a project when the case-folded project name contains it, or one of the
  project's keywords does.
\<close>

definition token_matches ::
  "(jsstring \<Rightarrow> jsstring) \<Rightarrow> jsstring \<Rightarrow> jsstring \<times> jsstring list \<Rightarrow> bool" where
  "token_matches toLowerCase tok entry \<longleftrightarrow>
     str_includes (toLowerCase (fst entry)) tok
     \<or> list_ex (\<lambda>kw. str_includes kw tok) (snd entry)"

section \<open>Remote call wrapper: \<open>apiCall\<close>\<close>

text \<open>
  What the program reads of an error object: \<open>error.code\<close> and \<open>error.status\<close>, \<open>None\<close> where
  the property is undefined.
\<close>

record error =
  err_code :: "jsstring option"
  err_status :: "nat option"

definition RATE_LIMIT_DELAY :: real where
  "RATE_LIMIT_DELAY = 350"

definition MAX_RETRIES :: nat where
  "MAX_RETRIES = 5"

text \<open>
  \<open>getBackoffDelay\<close>. \<open>random\<close> is the value \<open>Math.random()\<close> returned in this call. The
  numbers of the program are IEEE doubles: \<open>fl\<close> is the rounding of the runtime, which
  takes the exact value of a product or a sum to the double that stores it. The power of
  two and its product with 1000 are exact in doubles where they are below the cap, and
  above it the minimum is the cap, so \<open>baseDelay\<close> needs no rounding.
\<close>

definition getBackoffDelay :: "(real \<Rightarrow> real) \<Rightarrow> real \<Rightarrow> nat \<Rightarrow> real" where
  "getBackoffDelay fl random attempt =
     (let baseDelay = min (1000 * 2 ^ attempt) 10000;
          jitter = fl (random * 1000)
      in fl (baseDelay + jitter))"

text \<open>
  What a run of \<open>apiCall\<close> does, in order: \<open>Delay ms\<close> for \<open>await delay(ms)\<close> and \<open>Call k\<close>
  for the invocation of \<open>fn\<close> in the loop's round \<open>k\<close>.
\<close>

datatype event = Delay real | Call nat

text \<open>The test of the \<open>catch\<close> block.\<close>

definition is_rate_limited :: "error \<Rightarrow> bool" where
  "is_rate_limited e \<longleftrightarrow> err_code e = Some (js ''rate_limited'') \<or> err_status e = Some 429"

text \<open>
  The loop of \<open>apiCall\<close>. \<open>fn k\<close> is the outcome of the wrapped call in round \<open>k\<close> (\<open>Inl\<close>
  what it throws), \<open>random k\<close> the value of \<open>Math.random()\<close> in that round. The result is
  \<open>Inr\<close> the returned value or \<open>Inl\<close> the thrown one; \<open>lastError\<close> starts undefined (\<open>None\<close>).
\<close>

function apiCall_loop ::
  "(nat \<Rightarrow> error + 'a) \<Rightarrow> (real \<Rightarrow> real) \<Rightarrow> (nat \<Rightarrow> real) \<Rightarrow> nat \<Rightarrow> error option
     \<Rightarrow> event list \<Rightarrow> (error option + 'a) \<times> event list" where
  "apiCall_loop fn fl random attempt lastError trace =
     (if attempt < MAX_RETRIES then
        (case fn attempt of
           Inr v \<Rightarrow> (Inr v, trace @ [Delay RATE_LIMIT_DELAY, Call attempt])
         | Inl e \<Rightarrow>
             if is_rate_limited e then
               apiCall_loop fn fl random (attempt + 1) (Some e)
                 (trace @ [Delay RATE_LIMIT_DELAY, Call attempt,
                           Delay (getBackoffDelay fl (random attempt) attempt)])
             else (Inl (Some e), trace @ [Delay RATE_LIMIT_DELAY, Call attempt]))
      else (Inl lastError, trace))"
  by pat_completeness auto
termination
  by (relation "measure (\<lambda>(fn, fl, random, attempt, lastError, trace). MAX_RETRIES - attempt)")
     auto

definition apiCall ::
  "(nat \<Rightarrow> error + 'a) \<Rightarrow> (real \<Rightarrow> real) \<Rightarrow> (nat \<Rightarrow> real)
     \<Rightarrow> (error option + 'a) \<times> event list" where
  "apiCall fn fl random = apiCall_loop fn fl random 0 None []"

text \<open>A round fails transiently when the call throws an error the \<open>catch\<close> block retries.\<close>

definition transient_failure :: "error + 'a \<Rightarrow> bool" where
  "transient_failure r = (case r of Inl e \<Rightarrow> is_rate_limited e | Inr v \<Rightarrow> False)"

text \<open>What a round that ends the loop hands to the caller.\<close>

definition outcome :: "error + 'a \<Rightarrow> error option + 'a" where
  "outcome r = (case r of Inl e \<Rightarrow> Inl (Some e) | Inr v \<Rightarrow> Inr v)"

text \<open>The events of a round that failed transiently: pacing, the call, the backoff.\<close>

definition retried_round :: "(real \<Rightarrow> real) \<Rightarrow> (nat \<Rightarrow> real) \<Rightarrow> nat \<Rightarrow> event list" where
  "retried_round fl random k =
     [Delay 350, Call k, Delay (fl (min (1000 * 2 ^ k) 10000 + fl (random k * 1000)))]"

text \<open>The rounds in which \<open>fn\<close> was invoked, read off a trace.\<close>

definition invocations :: "event list \<Rightarrow> nat list" where
  "invocations trace = concat (map (\<lambda>e. case e of Call k \<Rightarrow> [k] | Delay d \<Rightarrow> []) trace)"

section \<open>The document store and the other collaborators\<close>

text \<open>
  The requests that change the document store, as the program sends them: the page and the
  property updates of \<open>pages.update\<close>, the database and the properties of \<open>pages.create\<close>,
  the page, the text of each new list item and the \<open>after\<close> block of
  \<open>blocks.children.append\<close>, the block of \<open>blocks.delete\<close>, and the page that
  \<open>pages.update\<close> archives.
\<close>

datatype action =
    UpdatePage jsstring "(jsstring \<times> jsstring) list"
  | CreatePage jsstring "(jsstring \<times> jsstring) list"
  | AppendChildren jsstring "jsstring list" jsstring
  | DeleteBlock jsstring
  | ArchivePage jsstring

record config =
  projects_db :: jsstring
  tasks_db :: jsstring

text \<open>\<open>CategorizedBundle\<close>: the five lists the classification returns.\<close>

record categorized_bundle =
  credentials :: "jsstring list"
  contacts :: "jsstring list"
  links :: "jsstring list"
  decisions :: "jsstring list"
  other :: "jsstring list"

text \<open>One task of \<open>parseQuickTodo\<close>; \<open>project\<close> and \<open>due\<close> may be \<open>null\<close>.\<close>

record parsed_task =
  task_title :: jsstring
  task_project :: "jsstring option"
  task_priority :: jsstring
  task_due :: "jsstring option"

text \<open>
  Everything outside the engine answers through a \<open>world\<close>: what each call returns or
  throws (\<open>Inl\<close>, or \<open>Some\<close> for a call without a result) when it is made as the \<open>n\<close>-th
  interaction of a run. The answers are arbitrary functions of that instant and of the
  arguments, so a world can fail, change between two reads, or stay fixed.
  \<^item> \<open>getAllBlocksRecursive_r\<close>, \<open>getTopLevelBlocks_r\<close>: the two block readers of the client;
  \<^item> \<open>loadConfig_r\<close>: reading and parsing \<open>CA_V2_CONFIG.json\<close>;
  \<open>queryDatabase_r\<close>: the ids of the pages whose \<open>Name\<close> equals the given title;
  \<^item> \<open>children_append_r\<close>, \<open>blocks_delete_r\<close>, \<open>pages_archive_r\<close>, \<open>updatePage_r\<close>,
  \<open>createPage_r\<close>: the requests above;
  \<^item> \<open>parseQuickTodo_r\<close> (the \<open>tasks\<close> property of its result, \<open>None\<close> when absent) and
  \<open>categorizeProjectInfo_r\<close>: the classification service.
\<close>

record world =
  getAllBlocksRecursive_r :: "nat \<Rightarrow> jsstring \<Rightarrow> error + block list"
  getTopLevelBlocks_r :: "nat \<Rightarrow> jsstring \<Rightarrow> error + block list"
  loadConfig_r :: "nat \<Rightarrow> error + config"
  queryDatabase_r :: "nat \<Rightarrow> jsstring \<Rightarrow> jsstring \<Rightarrow> error + jsstring list"
  children_append_r :: "nat \<Rightarrow> jsstring \<Rightarrow> jsstring list \<Rightarrow> jsstring \<Rightarrow> error option"
  blocks_delete_r :: "nat \<Rightarrow> jsstring \<Rightarrow> error option"
  pages_archive_r :: "nat \<Rightarrow> jsstring \<Rightarrow> error option"
  updatePage_r :: "nat \<Rightarrow> jsstring \<Rightarrow> (jsstring \<times> jsstring) list \<Rightarrow> error option"
  createPage_r :: "nat \<Rightarrow> jsstring \<Rightarrow> (jsstring \<times> jsstring) list \<Rightarrow> error option"
  parseQuickTodo_r :: "nat \<Rightarrow> jsstring \<Rightarrow> error + parsed_task list option"
  categorizeProjectInfo_r :: "nat \<Rightarrow> jsstring list \<Rightarrow> error + categorized_bundle"

text \<open>
  The state a run threads through its calls: the number of interactions so far and the
  changing requests sent so far, in order, whether or not the store accepted them.
\<close>

record run_state =
  clock :: nat
  effects :: "action list"

definition tick :: "run_state \<Rightarrow> run_state" where
  "tick s = s\<lparr> clock := clock s + 1 \<rparr>"

definition perform :: "action \<Rightarrow> run_state \<Rightarrow> run_state" where
  "perform a s = s\<lparr> clock := clock s + 1, effects := effects s @ [a] \<rparr>"

section \<open>Project page updater: \<open>appendToSection\<close> and \<open>updateProjectPage\<close>\<close>

text \<open>
  The section headings, with their emoji as UTF-16 surrogate pairs: U+1F511 (key),
  U+1F465 (people), U+1F517 (link) and U+1F4A1 (light bulb).
\<close>

definition CREDENTIALS_HEADING :: jsstring where
  "CREDENTIALS_HEADING = [55357, 56593] @ js '' Credentials & Access''"

definition CONTACTS_HEADING :: jsstring where
  "CONTACTS_HEADING = [55357, 56421] @ js '' Key Contacts''"

definition LINKS_HEADING :: jsstring where
  "LINKS_HEADING = [55357, 56599] @ js '' Important Links''"

definition DECISIONS_HEADING :: jsstring where
  "DECISIONS_HEADING = [55357, 56481] @ js '' Project Context & Decisions''"

definition findProjectPage :: "world \<Rightarrow> jsstring \<Rightarrow> run_state \<Rightarrow> jsstring option \<times> run_state" where
  "findProjectPage w projectName s =
     (case loadConfig_r w (clock s) of
        Inl e \<Rightarrow> (None, tick s)
      | Inr config \<Rightarrow>
          (case queryDatabase_r w (clock (tick s)) (projects_db config) projectName of
             Inl e \<Rightarrow> (None, tick (tick s))
           | Inr results \<Rightarrow>
               (case results of
                  [] \<Rightarrow> (None, tick (tick s))
                | pageId # others \<Rightarrow> (Some pageId, tick (tick s)))))"

definition formatEntry :: "jsstring \<Rightarrow> jsstring \<Rightarrow> jsstring \<Rightarrow> jsstring" where
  "formatEntry content meetingTitle meetingId = content"

text \<open>\<open>sectionHeading.split(' ').slice(1).join(' ')\<close>: the heading without its first word.\<close>

definition heading_title :: "jsstring \<Rightarrow> jsstring" where
  "heading_title sectionHeading = join (drop 1 (js_split sectionHeading 32)) (js '' '')"

text \<open>The loop that looks for the section heading among the top-level blocks.\<close>

fun find_section_block :: "block list \<Rightarrow> jsstring \<Rightarrow> block option" where
  "find_section_block [] sectionHeading = None"
| "find_section_block (block # rest) sectionHeading =
     (if str_includes (btype block) (js ''heading'') then
        (let text = trim (plain_text block) in
         if text = sectionHeading \<or> str_includes text (heading_title sectionHeading)
         then Some block
         else find_section_block rest sectionHeading)
      else find_section_block rest sectionHeading)"

text \<open>\<open>line.trim().replace(/^-\s*/, '')\<close> and the list items made of \<open>content\<close>.\<close>

definition strip_leading_dash :: "jsstring \<Rightarrow> jsstring" where
  "strip_leading_dash s =
     (case s of [] \<Rightarrow> [] | c # cs \<Rightarrow> if c = 45 then dropWhile isWhiteSpace cs else s)"

definition bullet_lines :: "jsstring \<Rightarrow> jsstring list" where
  "bullet_lines content =
     map (\<lambda>line. strip_leading_dash (trim line))
       (filter (\<lambda>line. length (trim line) > 0) (js_split content 10))"

text \<open>The test of the \<open>catch\<close> block of \<open>appendToSection\<close>.\<close>

definition retriable :: "error \<Rightarrow> nat \<Rightarrow> bool" where
  "retriable e retryCount \<longleftrightarrow>
     (err_code e = Some (js ''notionhq_client_request_timeout'') \<or> err_status e = Some 429)
     \<and> retryCount < 2"

text \<open>
  \<open>appendToSection\<close>. \<open>fallbackSection\<close> is \<open>None\<close> for \<open>null\<close>; the callers that leave the
  parameter out pass the default, \<open>DECISIONS_HEADING\<close>. The result is the returned boolean.
\<close>

function appendToSection ::
  "world \<Rightarrow> jsstring \<Rightarrow> jsstring \<Rightarrow> jsstring \<Rightarrow> jsstring option \<Rightarrow> nat \<Rightarrow> run_state
     \<Rightarrow> bool \<times> run_state" where
  "appendToSection w pageId sectionHeading content fallbackSection retryCount s =
     (case getTopLevelBlocks_r w (clock s) pageId of
        Inl e \<Rightarrow>
          if retriable e retryCount
          then appendToSection w pageId sectionHeading content fallbackSection
                 (retryCount + 1) (tick s)
          else (False, tick s)
      | Inr blocks \<Rightarrow>
          (case find_section_block blocks sectionHeading of
             None \<Rightarrow>
               (case fallbackSection of
                  None \<Rightarrow> (False, tick s)
                | Some fallback \<Rightarrow>
                    if fallback \<noteq> [] \<and> sectionHeading \<noteq> fallback
                    then appendToSection w pageId fallback content None retryCount (tick s)
                    else (False, tick s))
           | Some sectionBlock \<Rightarrow>
               (case children_append_r w (clock (tick s)) pageId (bullet_lines content)
                       (block_id sectionBlock) of
                  None \<Rightarrow>
                    (True, perform (AppendChildren pageId (bullet_lines content)
                                      (block_id sectionBlock)) (tick s))
                | Some e \<Rightarrow>
                    if retriable e retryCount
                    then appendToSection w pageId sectionHeading content fallbackSection
                           (retryCount + 1)
                           (perform (AppendChildren pageId (bullet_lines content)
                                       (block_id sectionBlock)) (tick s))
                    else (False, perform (AppendChildren pageId (bullet_lines content)
                                            (block_id sectionBlock)) (tick s)))))"
  by pat_completeness auto
termination
  by (relation "measure (\<lambda>(w, pageId, sectionHeading, content, fallbackSection, retryCount, s).
        (case fallbackSection of None \<Rightarrow> 0 | Some f \<Rightarrow> 3) + (2 - retryCount))")
     (auto simp: retriable_def)

text \<open>
  The loops of \<open>updateProjectPage\<close> over credentials, contacts and links: one
  \<open>appendToSection\<close> per item, counting the items and the successes.
\<close>

fun append_each ::
  "world \<Rightarrow> jsstring \<Rightarrow> jsstring \<Rightarrow> jsstring \<Rightarrow> jsstring \<Rightarrow> jsstring list \<Rightarrow> nat \<times> nat
     \<Rightarrow> run_state \<Rightarrow> (nat \<times> nat) \<times> run_state" where
  "append_each w pageId sectionHeading meetingTitle meetingId [] counts s = (counts, s)"
| "append_each w pageId sectionHeading meetingTitle meetingId (item # rest)
       (successCount, totalItems) s =
     (case appendToSection w pageId sectionHeading (formatEntry item meetingTitle meetingId)
             (Some DECISIONS_HEADING) 0 s of
        (success, s') \<Rightarrow>
          append_each w pageId sectionHeading meetingTitle meetingId rest
            (if success then successCount + 1 else successCount, totalItems + 1) s')"

text \<open>The decisions and the other items: one append of the lines joined by a line feed.\<close>

definition append_joined ::
  "world \<Rightarrow> jsstring \<Rightarrow> jsstring list \<Rightarrow> nat \<times> nat \<Rightarrow> run_state \<Rightarrow> (nat \<times> nat) \<times> run_state" where
  "append_joined w pageId items counts s =
     (case counts of (successCount, totalItems) \<Rightarrow>
        (case appendToSection w pageId DECISIONS_HEADING (join items [10])
                (Some DECISIONS_HEADING) 0 s of
           (success, s') \<Rightarrow>
             ((if success then successCount + 1 else successCount, totalItems + 1), s')))"

definition updateProjectPage ::
  "world \<Rightarrow> jsstring \<Rightarrow> categorized_bundle \<Rightarrow> jsstring \<Rightarrow> jsstring \<Rightarrow> run_state \<Rightarrow> bool \<times> run_state" where
  "updateProjectPage w projectName categorized meetingTitle meetingId s =
     (case findProjectPage w projectName s of
        (None, s0) \<Rightarrow> (False, s0)
      | (Some pageId, s0) \<Rightarrow>
          if pageId = [] then (False, s0)
          else
            (case (if credentials categorized \<noteq> []
                   then append_each w pageId CREDENTIALS_HEADING meetingTitle meetingId
                          (credentials categorized) (0, 0) s0
                   else ((0, 0), s0)) of
               (c1, s1) \<Rightarrow>
            (case (if contacts categorized \<noteq> []
                   then append_each w pageId CONTACTS_HEADING meetingTitle meetingId
                          (contacts categorized) c1 s1
                   else (c1, s1)) of
               (c2, s2) \<Rightarrow>
            (case (if links categorized \<noteq> []
                   then append_each w pageId LINKS_HEADING meetingTitle meetingId
                          (links categorized) c2 s2
                   else (c2, s2)) of
               (c3, s3) \<Rightarrow>
            (case (if decisions categorized \<noteq> []
                   then append_joined w pageId (decisions categorized) c3 s3
                   else (c3, s3)) of
               (c4, s4) \<Rightarrow>
            (case (if other categorized \<noteq> []
                   then append_joined w pageId (other categorized) c4 s4
                   else (c4, s4)) of
               ((successCount, totalItems), s5) \<Rightarrow> (successCount > 0, s5)))))))"

text \<open>
  A block is a heading of the section named \<open>sectionHeading\<close> when the loop above accepts
  it; a request targets the section when it appends after such a block of the page as
  read at some instant.
\<close>

definition section_matches :: "jsstring \<Rightarrow> block \<Rightarrow> bool" where
  "section_matches sectionHeading b \<longleftrightarrow>
     str_includes (btype b) (js ''heading'') \<and>
     (trim (plain_text b) = sectionHeading
      \<or> str_includes (trim (plain_text b)) (heading_title sectionHeading))"

definition targets :: "world \<Rightarrow> jsstring \<Rightarrow> action \<Rightarrow> bool" where
  "targets w sectionHeading a \<longleftrightarrow>
     (\<exists>pageId items t blocks b.
        a = AppendChildren pageId items (block_id b) \<and>
        getTopLevelBlocks_r w t pageId = Inr blocks \<and> b \<in> set blocks \<and>
        section_matches sectionHeading b)"

text \<open>
  The changes of a run stay within what \<open>s\<close> held and requests that target one of the
  sections \<open>H\<close>.
\<close>

definition only_targets :: "world \<Rightarrow> jsstring set \<Rightarrow> run_state \<Rightarrow> run_state \<Rightarrow> bool" where
  "only_targets w H s s' \<longleftrightarrow>
     (\<exists>new. effects s' = effects s @ new \<and> (\<forall>a\<in>set new. \<exists>h\<in>H. targets w h a))"

section \<open>Quick-entry processor: \<open>deleteSection\<close> and \<open>processQuickTodo\<close>\<close>

text \<open>
  The two section headings as the source file spells them: the code units U+00F0, U+0178,
  U+201C and then U+2039 (task) or U+0152 (project info), a space and the title. The
  character class of the regular expression in the heading test holds the same five code
  units.
\<close>

definition TASK_HEADING :: jsstring where
  "TASK_HEADING = [240, 376, 8220, 8249] @ js '' Task''"

definition PROJECT_INFO_HEADING :: jsstring where
  "PROJECT_INFO_HEADING = [240, 376, 8220, 338] @ js '' Project Info''"

definition strip_icons :: "jsstring \<Rightarrow> jsstring" where
  "strip_icons s = filter (\<lambda>c. c \<notin> set [240, 376, 8220, 8249, 338]) s"

text \<open>
  The loop that \<open>extractSectionContent\<close> and \<open>deleteSection\<close> both run to find the
  section: it returns \<open>sectionIndex\<close> and \<open>nextHeadingIndex\<close> as the loop leaves them.
\<close>

fun section_loop :: "block list \<Rightarrow> jsstring \<Rightarrow> int \<Rightarrow> int \<Rightarrow> int \<times> int" where
  "section_loop [] sectionHeading i sectionIndex = (sectionIndex, -1)"
| "section_loop (block # rest) sectionHeading i sectionIndex =
     (if str_includes (btype block) (js ''heading'') then
        (let text = trim (plain_text block) in
         if str_includes text sectionHeading
            \<or> str_includes text (trim (strip_icons sectionHeading))
         then section_loop rest sectionHeading (i + 1) i
         else if sectionIndex \<noteq> -1 then (sectionIndex, i)
         else section_loop rest sectionHeading (i + 1) sectionIndex)
      else section_loop rest sectionHeading (i + 1) sectionIndex)"

text \<open>The second loop of \<open>extractSectionContent\<close>, over the blocks of the section.\<close>

fun section_content :: "block list \<Rightarrow> jsstring \<Rightarrow> jsstring" where
  "section_content [] content = content"
| "section_content (block # rest) content =
     (if btype block = js ''divider'' then section_content rest content
      else
        (let text = trim (plain_text block);
             content1 = (if btype block = js ''paragraph'' \<and> text \<noteq> []
                         then content @ text @ [10] else content);
             content2 = (if str_includes (btype block) (js ''heading'') \<and> text \<noteq> []
                         then content1 @ text @ [10] else content1);
             content3 = (if btype block = js ''bulleted_list_item'' \<and> text \<noteq> []
                         then content2 @ js ''- '' @ text @ [10] else content2)
         in section_content rest content3))"

definition extractSectionContent :: "block list \<Rightarrow> jsstring \<Rightarrow> jsstring" where
  "extractSectionContent blocks sectionHeading =
     (case section_loop blocks sectionHeading 0 (-1) of
        (sectionIndex, nextHeadingIndex) \<Rightarrow>
          if sectionIndex = -1 then []
          else
            (let endIndex = (if nextHeadingIndex = -1 then int (length blocks)
                             else nextHeadingIndex)
             in trim (section_content
                        (take (nat (endIndex - (sectionIndex + 1)))
                           (drop (nat (sectionIndex + 1)) blocks)) [])))"

text \<open>
  The deletion loop: one \<open>blocks.delete\<close> per block; an error is logged and the loop goes
  on, so the answer of the store does not steer it.
\<close>

fun delete_blocks :: "block list \<Rightarrow> run_state \<Rightarrow> run_state" where
  "delete_blocks [] s = s"
| "delete_blocks (block # rest) s = delete_blocks rest (perform (DeleteBlock (block_id block)) s)"

definition deleteSection :: "world \<Rightarrow> jsstring \<Rightarrow> jsstring \<Rightarrow> run_state \<Rightarrow> bool \<times> run_state" where
  "deleteSection w pageId sectionHeading s =
     (case getAllBlocksRecursive_r w (clock s) pageId of
        Inl e \<Rightarrow> (False, tick s)
      | Inr blocks \<Rightarrow>
          (case section_loop blocks sectionHeading 0 (-1) of
             (sectionIndex, nextHeadingIndex) \<Rightarrow>
               if sectionIndex = -1 then (True, tick s)
               else
                 (let endIndex = (if nextHeadingIndex = -1 then int (length blocks)
                                  else nextHeadingIndex)
                  in (True, delete_blocks
                              (take (nat (endIndex - sectionIndex)) (drop (nat sectionIndex) blocks))
                              (tick s)))))"

text \<open>A heading block names the section when the loop's test accepts it.\<close>

definition names_section :: "jsstring \<Rightarrow> block \<Rightarrow> bool" where
  "names_section sectionHeading b \<longleftrightarrow>
     str_includes (btype b) (js ''heading'') \<and>
     (str_includes (trim (plain_text b)) sectionHeading
      \<or> str_includes (trim (plain_text b)) (trim (strip_icons sectionHeading)))"

text \<open>
  The properties of a task page that \<open>processQuickTodo\<close> reads: the \<open>plain_text\<close> of the
  title items, and the \<open>select\<close> names and the \<open>date\<close> start, \<open>None\<close> where unset.
\<close>

record task_page =
  page_id :: jsstring
  Title :: "jsstring list option"
  Project :: "jsstring option"
  Priority :: "jsstring option"
  Due :: "jsstring option"
  Status :: "jsstring option"

record quick_result =
  taskCreated :: bool
  projectInfoRouted :: bool
  pageDeleted :: bool

text \<open>A string or \<open>null\<close> in a condition: true for a non-empty string.\<close>

definition truthy :: "jsstring option \<Rightarrow> bool" where
  "truthy v = (case v of None \<Rightarrow> False | Some x \<Rightarrow> x \<noteq> [])"

definition first_task_updates ::
  "(jsstring \<Rightarrow> jsstring) \<Rightarrow> task_page \<Rightarrow> parsed_task \<Rightarrow> (jsstring \<times> jsstring) list" where
  "first_task_updates toLowerCase page firstTask =
     (let currentTitleText = trim (concat (case Title page of None \<Rightarrow> [] | Some t \<Rightarrow> t))
      in (if currentTitleText = [] \<or> length currentTitleText < 5
             \<or> str_includes (toLowerCase currentTitleText) (js ''untitled'')
          then [(js ''Title'', task_title firstTask)] else [])
       @ (if Project page = None \<and> truthy (task_project firstTask)
          then [(js ''Project'', the (task_project firstTask))] else [])
       @ (if Priority page = None then [(js ''Priority'', task_priority firstTask)] else [])
       @ (if Due page = None \<and> truthy (task_due firstTask)
          then [(js ''Due'', the (task_due firstTask))] else [])
       @ (if Status page = None then [(js ''Status'', js ''Backlog'')] else []))"

definition new_task_properties :: "parsed_task \<Rightarrow> (jsstring \<times> jsstring) list" where
  "new_task_properties task =
     [(js ''Title'', task_title task), (js ''Status'', js ''Backlog''),
      (js ''Priority'', task_priority task)]
     @ (if truthy (task_due task) then [(js ''Due'', the (task_due task))] else [])
     @ (if truthy (task_project task) then [(js ''Project'', the (task_project task))] else [])"

text \<open>The loop that creates the further tasks; a failed creation is logged and skipped.\<close>

fun create_tasks :: "jsstring \<Rightarrow> parsed_task list \<Rightarrow> run_state \<Rightarrow> run_state" where
  "create_tasks tasksDbId [] s = s"
| "create_tasks tasksDbId (task # rest) s =
     create_tasks tasksDbId rest (perform (CreatePage tasksDbId (new_task_properties task)) s)"

text \<open>
  Step 1 of \<open>processQuickTodo\<close>. The result is \<open>None\<close> when the step leaves the function
  with \<open>return null\<close>, else \<open>Some taskSuccess\<close>.
\<close>

definition processTaskSection ::
  "(jsstring \<Rightarrow> jsstring) \<Rightarrow> world \<Rightarrow> task_page \<Rightarrow> jsstring \<Rightarrow> run_state
     \<Rightarrow> bool option \<times> run_state" where
  "processTaskSection toLowerCase w page taskContent s =
     (if taskContent \<noteq> [] \<and> length taskContent > 3 then
        (case parseQuickTodo_r w (clock s) taskContent of
           Inl e \<Rightarrow> (Some False, tick s)
         | Inr parsed \<Rightarrow>
             (case (case parsed of None \<Rightarrow> [] | Some ts \<Rightarrow> ts) of
                [] \<Rightarrow> (None, tick s)
              | firstTask # further \<Rightarrow>
                  (let updates = first_task_updates toLowerCase page firstTask in
                   case (if updates \<noteq> []
                         then (updatePage_r w (clock (tick s)) (page_id page) updates,
                               perform (UpdatePage (page_id page) updates) (tick s))
                         else (None, tick s)) of
                     (Some e, s2) \<Rightarrow> (Some False, s2)
                   | (None, s2) \<Rightarrow>
                       if length (firstTask # further) > 1 then
                         (case loadConfig_r w (clock s2) of
                            Inl e \<Rightarrow> (Some False, tick s2)
                          | Inr config \<Rightarrow>
                              (Some True, create_tasks (tasks_db config) further (tick s2)))
                       else (Some True, s2))))
      else (Some False, s))"

text \<open>\<open>line.replace(/^[...]\s*/, '')\<close> with the class of step 2: \<open>-\<close>, U+00E2, U+20AC, U+00A2.\<close>

definition strip_leading_bullet :: "jsstring \<Rightarrow> jsstring" where
  "strip_leading_bullet s =
     (case s of
        [] \<Rightarrow> []
      | c # cs \<Rightarrow> if c \<in> set [45, 226, 8364, 162] then dropWhile isWhiteSpace cs else s)"

definition projectKeywords :: "(jsstring \<times> jsstring list) list" where
  "projectKeywords =
     [(js ''ClickUp'', map js [''clickup'', ''click up'']),
      (js ''HubSpot'', map js [''hubspot'', ''hub spot'']),
      (js ''Docebo'', map js [''docebo'']),
      (js ''AI Sales'', map js [''ai sales'', ''retell'']),
      (js ''Insider Knowledge'', map js [''insider'', ''merlin'']),
      (js ''PD OTN'', map js [''pd otn'', ''otn'']),
      (js ''Podcast'', map js [''podcast'']),
      (js ''Quarterly Economic Review'', map js [''qer'', ''economic''])]"

fun detect_project :: "jsstring \<Rightarrow> (jsstring \<times> jsstring list) list \<Rightarrow> jsstring option" where
  "detect_project allContent [] = None"
| "detect_project allContent ((proj, keywords) # rest) =
     (if list_ex (\<lambda>kw. str_includes allContent kw) keywords then Some proj
      else detect_project allContent rest)"

text \<open>Step 2 of \<open>processQuickTodo\<close>; the result is \<open>projectInfoSuccess\<close>.\<close>

definition processInfoSection ::
  "(jsstring \<Rightarrow> jsstring) \<Rightarrow> world \<Rightarrow> jsstring \<Rightarrow> jsstring \<Rightarrow> run_state
     \<Rightarrow> bool \<times> run_state" where
  "processInfoSection toLowerCase w pageId projectInfoContent s =
     (if projectInfoContent \<noteq> [] \<and> length projectInfoContent > 5 then
        (let bullets = filter (\<lambda>line. length line > 0)
                         (map (\<lambda>line. trim (strip_leading_bullet line))
                            (js_split projectInfoContent 10))
         in if length bullets > 0 then
              (case categorizeProjectInfo_r w (clock s) bullets of
                 Inl e \<Rightarrow> (False, tick s)
               | Inr categorized \<Rightarrow>
                   (let allContent = toLowerCase (join bullets (js '' ''));
                        detectedProject =
                          (case detect_project allContent projectKeywords of
                             None \<Rightarrow> js ''Support/Other''
                           | Some proj \<Rightarrow> proj)
                    in updateProjectPage w detectedProject categorized
                         (js ''Quick Info Entry'') pageId (tick s)))
            else (False, s))
      else (False, s))"

text \<open>Step 3 of \<open>processQuickTodo\<close>, the cleanup, with the value the function returns.\<close>

definition cleanup ::
  "world \<Rightarrow> jsstring \<Rightarrow> jsstring \<Rightarrow> jsstring \<Rightarrow> bool \<Rightarrow> bool \<Rightarrow> run_state
     \<Rightarrow> quick_result option \<times> run_state" where
  "cleanup w pageId taskContent projectInfoContent taskSuccess projectInfoSuccess s =
     (if taskSuccess \<or> projectInfoSuccess then
        if taskContent \<noteq> [] \<and> projectInfoContent \<noteq> [] \<and> taskSuccess \<and> projectInfoSuccess then
          (Some \<lparr> taskCreated = True, projectInfoRouted = True, pageDeleted = False \<rparr>,
           snd (deleteSection w pageId PROJECT_INFO_HEADING s))
        else if taskContent = [] \<and> projectInfoContent \<noteq> [] \<and> projectInfoSuccess then
          (case pages_archive_r w (clock s) pageId of
             None \<Rightarrow>
               (Some \<lparr> taskCreated = False, projectInfoRouted = True, pageDeleted = True \<rparr>,
                perform (ArchivePage pageId) s)
           | Some e \<Rightarrow>
               (Some \<lparr> taskCreated = False, projectInfoRouted = True, pageDeleted = False \<rparr>,
                perform (ArchivePage pageId) s))
        else if taskContent \<noteq> [] \<and> projectInfoContent = [] \<and> taskSuccess then
          (Some \<lparr> taskCreated = True, projectInfoRouted = False, pageDeleted = False \<rparr>,
           snd (deleteSection w pageId PROJECT_INFO_HEADING s))
        else
          (Some \<lparr> taskCreated = taskSuccess, projectInfoRouted = projectInfoSuccess,
                   pageDeleted = False \<rparr>, s)
      else (None, s))"

definition processQuickTodo ::
  "(jsstring \<Rightarrow> jsstring) \<Rightarrow> world \<Rightarrow> task_page \<Rightarrow> run_state
     \<Rightarrow> quick_result option \<times> run_state" where
  "processQuickTodo toLowerCase w page s =
     (case getAllBlocksRecursive_r w (clock s) (page_id page) of
        Inl e \<Rightarrow> (None, tick s)
      | Inr blocks \<Rightarrow>
          (let taskContent = extractSectionContent blocks TASK_HEADING;
               projectInfoContent = extractSectionContent blocks PROJECT_INFO_HEADING
           in if taskContent = [] \<and> projectInfoContent = [] then (None, tick s)
              else
                (case processTaskSection toLowerCase w page taskContent (tick s) of
                   (None, s1) \<Rightarrow> (None, s1)
                 | (Some taskSuccess, s1) \<Rightarrow>
                     (case processInfoSection toLowerCase w (page_id page) projectInfoContent s1 of
                        (projectInfoSuccess, s2) \<Rightarrow>
                          cleanup w (page_id page) taskContent projectInfoContent
                            taskSuccess projectInfoSuccess s2))))"


text \<open>
  The requests that change the quick-entry record itself: an update or the archiving of
  its page, and the deletion of a block.
\<close>

definition touches_record :: "jsstring \<Rightarrow> action \<Rightarrow> bool" where
  "touches_record pageId a =
     (case a of
        UpdatePage p u \<Rightarrow> p = pageId
      | ArchivePage p \<Rightarrow> p = pageId
      | DeleteBlock b \<Rightarrow> True
      | CreatePage d u \<Rightarrow> False
      | AppendChildren p items after \<Rightarrow> False)"

text \<open>The requests of the cleanup step: deletions and archiving.\<close>

definition is_cleanup :: "action \<Rightarrow> bool" where
  "is_cleanup a =
     (case a of
        DeleteBlock b \<Rightarrow> True
      | ArchivePage p \<Rightarrow> True
      | UpdatePage p u \<Rightarrow> False
      | CreatePage d u \<Rightarrow> False
      | AppendChildren p items after \<Rightarrow> False)"

text \<open>From \<open>s\<close> to \<open>s'\<close> a run sent no request of the cleanup step.\<close>

definition no_cleanup :: "run_state \<Rightarrow> run_state \<Rightarrow> bool" where
  "no_cleanup s s' \<longleftrightarrow>
     (\<exists>new. effects s' = effects s @ new \<and> (\<forall>a\<in>set new. \<not> is_cleanup a))"

section \<open>Example inputs\<close>

text \<open>Example blocks, used to run the scanner on concrete pages.\<close>

definition ex_para :: block where
  "ex_para = \<lparr> block_id = js ''b0'', btype = js ''paragraph'', rich_text = [js ''Weekly sync''] \<rparr>"

definition ex_info1 :: block where
  "ex_info1 = \<lparr> block_id = js ''b1'', btype = js ''heading_2'', rich_text = [js ''Project Info''] \<rparr>"

definition ex_info2 :: block where
  "ex_info2 = \<lparr> block_id = js ''b2'', btype = js ''heading_2'',
                rich_text = [js '' Project '', js ''Information (new)''] \<rparr>"

definition ex_bullet :: block where
  "ex_bullet = \<lparr> block_id = js ''b3'', btype = js ''bulleted_list_item'',
                 rich_text = [js ''API key: abc-123''] \<rparr>"

definition ex_notes :: block where
  "ex_notes = \<lparr> block_id = js ''b4'', btype = js ''heading_1'', rich_text = [js ''Notes''] \<rparr>"

text \<open>
  Example meeting pages, with a stand-in date parser that reads a time stamp of \<open>n\<close> code
  units as the instant \<open>n\<close> (and the empty string as an invalid date).
\<close>

definition ex_new_Date :: "jsstring \<Rightarrow> jsdate" where
  "ex_new_Date s = (if s = [] then None else Some (int (length s)))"

definition ex_page_new :: meeting_page where
  "ex_page_new = \<lparr> Processed = Some False, Last_Processed = None, last_edited_time = js ''ttt'' \<rparr>"

definition ex_page_edited :: meeting_page where
  "ex_page_edited = \<lparr> Processed = Some True, Last_Processed = Some (js ''tt''),
                      last_edited_time = js ''ttt'' \<rparr>"

definition ex_page_same :: meeting_page where
  "ex_page_same = \<lparr> Processed = Some True, Last_Processed = Some (js ''ttt''),
                    last_edited_time = js ''ttt'' \<rparr>"

definition ex_page_unset :: meeting_page where
  "ex_page_unset = \<lparr> Processed = Some True, Last_Processed = None, last_edited_time = js ''ttt'' \<rparr>"

text \<open>Example paragraphs that carry override tags.\<close>

definition ex_tag1 :: block where
  "ex_tag1 = \<lparr> block_id = js ''p1'', btype = js ''paragraph'',
               rich_text = [js ''see #Proj:HS for details''] \<rparr>"

definition ex_tag2 :: block where
  "ex_tag2 = \<lparr> block_id = js ''p2'', btype = js ''paragraph'',
               rich_text = [js ''#proj:zzz #proj:hubspot''] \<rparr>"

text \<open>
  A stand-in for the digest in the examples: it reverses its input. What is proved about
  the key holds for every digest.
\<close>

definition ex_digest :: "jsstring \<Rightarrow> jsstring" where
  "ex_digest s = rev s"

definition ex_tag3 :: block where
  "ex_tag3 = \<lparr> block_id = js ''p3'', btype = js ''paragraph'',
               rich_text = [js ''file under #proj:Eco please''] \<rparr>"

definition ex_hubspot_entry :: "jsstring \<times> jsstring list" where
  "ex_hubspot_entry = (js ''HubSpot'', map js [''hubspot'', ''crm'', ''hs'', ''hub spot''])"

text \<open>
  An example run: a round that fails with the rate-limit code, a round that fails with
  status 429, then a server error.
\<close>

definition ex_rate_limited :: error where
  "ex_rate_limited = \<lparr> err_code = Some (js ''rate_limited''), err_status = None \<rparr>"

definition ex_429 :: error where
  "ex_429 = \<lparr> err_code = None, err_status = Some 429 \<rparr>"

definition ex_500 :: error where
  "ex_500 = \<lparr> err_code = Some (js ''internal_server_error''), err_status = Some 500 \<rparr>"

definition ex_fn :: "nat \<Rightarrow> error + nat" where
  "ex_fn k =
     (if k = 0 then Inl ex_rate_limited
      else if k = 1 then Inl ex_429
      else if k = 2 then Inl ex_500
      else Inr 7)"

definition ex_random :: "nat \<Rightarrow> real" where
  "ex_random k = (if k = 0 then 1 / 2 else 1 / 4)"

text \<open>On the numbers of this run rounding changes nothing.\<close>

definition ex_fl :: "real \<Rightarrow> real" where
  "ex_fl x = x"

text \<open>
  An example world in which every call succeeds: the quick-entry record reads as
  \<open>record_blocks\<close>, the project page as \<open>project_blocks\<close>, one project page is found, the
  classification files every bullet under credentials and the task parser returns one task.
\<close>

definition ex_cred_heading :: block where
  "ex_cred_heading = \<lparr> block_id = js ''h-cred'', btype = js ''heading_2'',
                       rich_text = [CREDENTIALS_HEADING] \<rparr>"

definition ex_dec_heading :: block where
  "ex_dec_heading = \<lparr> block_id = js ''h-dec'', btype = js ''heading_2'',
                      rich_text = [DECISIONS_HEADING] \<rparr>"

definition ex_project_page :: "block list" where
  "ex_project_page = [ex_cred_heading, ex_dec_heading]"

definition ex_task :: parsed_task where
  "ex_task = \<lparr> task_title = js ''Send proposal'', task_project = Some (js ''ClickUp''),
               task_priority = js ''High'', task_due = None \<rparr>"

definition ex_world :: "block list \<Rightarrow> block list \<Rightarrow> world" where
  "ex_world record_blocks project_blocks =
     \<lparr> getAllBlocksRecursive_r = (\<lambda>t pageId. Inr record_blocks),
       getTopLevelBlocks_r = (\<lambda>t pageId. Inr project_blocks),
       loadConfig_r = (\<lambda>t. Inr \<lparr> projects_db = js ''db-projects'', tasks_db = js ''db-tasks'' \<rparr>),
       queryDatabase_r = (\<lambda>t db name. Inr [js ''project-page'']),
       children_append_r = (\<lambda>t pageId items after. None),
       blocks_delete_r = (\<lambda>t blockId. None),
       pages_archive_r = (\<lambda>t pageId. None),
       updatePage_r = (\<lambda>t pageId updates. None),
       createPage_r = (\<lambda>t db properties. None),
       parseQuickTodo_r = (\<lambda>t todoText. Inr (Some [ex_task])),
       categorizeProjectInfo_r = (\<lambda>t bullets.
         Inr \<lparr> credentials = bullets, contacts = [], links = [], decisions = [], other = [] \<rparr>) \<rparr>"

definition ex_start :: run_state where
  "ex_start = \<lparr> clock = 0, effects = [] \<rparr>"

definition ex_decisions_bundle :: categorized_bundle where
  "ex_decisions_bundle =
     \<lparr> credentials = [], contacts = [], links = [],
       decisions = [js ''Use the new API'', js ''- Budget approved''], other = [] \<rparr>"

text \<open>
  Example quick-entry records. The headings of a real page carry the emoji themselves
  (U+1F4CB, U+1F4CC); the heading test then succeeds on the title without the icon.
\<close>

definition ex_info_heading :: block where
  "ex_info_heading = \<lparr> block_id = js ''q1'', btype = js ''heading_3'',
                       rich_text = [[55357, 56524] @ js '' Project Info''] \<rparr>"

definition ex_info_line :: block where
  "ex_info_line = \<lparr> block_id = js ''q2'', btype = js ''paragraph'',
                    rich_text = [js ''hubspot api key: abc-123''] \<rparr>"

definition ex_task_heading :: block where
  "ex_task_heading = \<lparr> block_id = js ''q3'', btype = js ''heading_3'',
                       rich_text = [[55357, 56523] @ js '' Task''] \<rparr>"

definition ex_task_line :: block where
  "ex_task_line = \<lparr> block_id = js ''q4'', btype = js ''paragraph'',
                    rich_text = [js ''send proposal''] \<rparr>"

definition ex_inbox :: "block list" where
  "ex_inbox = [ex_info_heading, ex_info_line]"

definition ex_quick_page :: task_page where
  "ex_quick_page = \<lparr> page_id = js ''quick-1'', Title = None, Project = None,
                     Priority = None, Due = None, Status = None \<rparr>"


text \<open>A record with both sections filled, and a world whose classification fails.\<close>

definition ex_both :: "block list" where
  "ex_both = [ex_task_heading, ex_task_line, ex_info_heading, ex_info_line]"


text \<open>
  A record with the task section only, and a world whose task parser returns two tasks
  while the configuration file cannot be read.
\<close>

definition ex_task_only :: "block list" where
  "ex_task_only = [ex_task_heading, ex_task_line]"

definition ex_world_no_config :: world where
  "ex_world_no_config =
     (ex_world ex_task_only ex_project_page)
       \<lparr> loadConfig_r := (\<lambda>t. Inl ex_500),
         parseQuickTodo_r := (\<lambda>t todoText. Inr (Some [ex_task, ex_task])) \<rparr>"

chapter \<open>Verified properties\<close>

text \<open>Unfolding these evaluates the string functions on concrete code units.\<close>

lemmas js_eval = js_def trim_def latin1_toLowerCase_def latin1_toLowerCase_unit_def
  isWhiteSpace_def
  plain_text_def

section \<open>Section scanner\<close>

lemma loop_step_match:
  "is_project_info_heading toLowerCase b \<Longrightarrow>
   findProjectInfoSection_loop toLowerCase (b # bs) i p =
   findProjectInfoSection_loop toLowerCase bs (i + 1) i"
  by (simp add: is_project_info_heading_def is_heading_def)

lemma loop_step_other_heading:
  "is_heading b \<Longrightarrow> \<not> is_project_info_heading toLowerCase b \<Longrightarrow> p \<noteq> -1 \<Longrightarrow>
   findProjectInfoSection_loop toLowerCase (b # bs) i p = (p, i)"
  by (simp add: is_project_info_heading_def is_heading_def)

lemma loop_step_skip:
  "\<not> is_project_info_heading toLowerCase b \<Longrightarrow> \<not> is_heading b \<or> p = -1 \<Longrightarrow>
   findProjectInfoSection_loop toLowerCase (b # bs) i p =
   findProjectInfoSection_loop toLowerCase bs (i + 1) p"
  by (auto simp add: is_project_info_heading_def is_heading_def)

declare findProjectInfoSection_loop.simps(2) [simp del]

text \<open>Before the first matching heading nothing is recorded.\<close>

lemma loop_no_match:
  "\<forall>b\<in>set pre. \<not> is_project_info_heading toLowerCase b \<Longrightarrow>
   findProjectInfoSection_loop toLowerCase (pre @ ys) i (-1) =
   findProjectInfoSection_loop toLowerCase ys (i + int (length pre)) (-1)"
proof (induction pre arbitrary: i)
  case Nil
  then show ?case by simp
next
  case (Cons b pre)
  then show ?case by (simp add: loop_step_skip algebra_simps)
qed

text \<open>Blocks without a non-matching heading never end the loop.\<close>

lemma loop_run:
  "\<forall>b\<in>set run. \<not> (is_heading b \<and> \<not> is_project_info_heading toLowerCase b) \<Longrightarrow>
   \<exists>p'. findProjectInfoSection_loop toLowerCase (run @ ys) i p =
         findProjectInfoSection_loop toLowerCase ys (i + int (length run)) p'"
proof (induction run arbitrary: i p)
  case Nil
  then show ?case by auto
next
  case (Cons b run)
  show ?case
  proof (cases "is_project_info_heading toLowerCase b")
    case True
    from Cons.IH [of "i + 1" i] Cons.prems obtain p' where
      "findProjectInfoSection_loop toLowerCase (run @ ys) (i + 1) i =
       findProjectInfoSection_loop toLowerCase ys (i + 1 + int (length run)) p'" by auto
    with True show ?thesis by (auto simp: loop_step_match algebra_simps)
  next
    case False
    with Cons.prems have nh: "\<not> is_heading b" by auto
    from Cons.IH [of "i + 1" p] Cons.prems obtain p' where
      "findProjectInfoSection_loop toLowerCase (run @ ys) (i + 1) p =
       findProjectInfoSection_loop toLowerCase ys (i + 1 + int (length run)) p'" by auto
    with False nh show ?thesis by (auto simp: loop_step_skip algebra_simps)
  qed
qed

lemma loop_body:
  "\<forall>b\<in>set body. \<not> is_heading b \<Longrightarrow>
   findProjectInfoSection_loop toLowerCase (body @ ys) i p =
   findProjectInfoSection_loop toLowerCase ys (i + int (length body)) p"
proof (induction body arbitrary: i)
  case Nil
  then show ?case by simp
next
  case (Cons b body)
  then have "\<not> is_project_info_heading toLowerCase b" "\<not> is_heading b"
    by (auto simp: is_project_info_heading_def)
  with Cons show ?case by (simp add: loop_step_skip algebra_simps)
qed

lemma loop_rest:
  "rest = [] \<or> (is_heading (hd rest) \<and> \<not> is_project_info_heading toLowerCase (hd rest)) \<Longrightarrow>
   p \<noteq> -1 \<Longrightarrow>
   findProjectInfoSection_loop toLowerCase rest i p = (p, if rest = [] then -1 else i)"
  by (cases rest) (auto simp: loop_step_other_heading)

lemma findProjectInfoSection_None:
  assumes "\<forall>b\<in>set blocks. \<not> is_project_info_heading toLowerCase b"
  shows "findProjectInfoSection toLowerCase blocks = None"
  using loop_no_match [OF assms, of "[]" 0] by (simp add: findProjectInfoSection_def)

text \<open>Every page with a matching heading splits in the way the next theorem assumes.\<close>

lemma findProjectInfoSection_split:
  assumes "\<exists>b\<in>set blocks. is_project_info_heading toLowerCase b"
  shows "\<exists>pre run h body rest.
           blocks = pre @ run @ [h] @ body @ rest \<and>
           (\<forall>b\<in>set pre. \<not> is_project_info_heading toLowerCase b) \<and>
           (\<forall>b\<in>set run. \<not> (is_heading b \<and> \<not> is_project_info_heading toLowerCase b)) \<and>
           is_project_info_heading toLowerCase h \<and>
           (\<forall>b\<in>set body. \<not> is_heading b) \<and>
           (rest = [] \<or> (is_heading (hd rest) \<and> \<not> is_project_info_heading toLowerCase (hd rest)))"
proof -
  let ?P = "is_project_info_heading toLowerCase"
  let ?E = "\<lambda>b. is_heading b \<and> \<not> is_project_info_heading toLowerCase b"
  define pre where "pre = takeWhile (\<lambda>b. \<not> ?P b) blocks"
  define after where "after = dropWhile (\<lambda>b. \<not> ?P b) blocks"
  define seg where "seg = takeWhile (\<lambda>b. \<not> ?E b) after"
  define rest where "rest = dropWhile (\<lambda>b. \<not> ?E b) after"
  have blocks: "blocks = pre @ seg @ rest"
    by (simp add: pre_def after_def seg_def rest_def)
  have pre: "\<forall>b\<in>set pre. \<not> ?P b"
    unfolding pre_def by (auto dest: set_takeWhileD)
  have "after \<noteq> []" using assms by (auto simp: after_def)
  then have "?P (hd after)" unfolding after_def using hd_dropWhile by blast
  with \<open>after \<noteq> []\<close> have "hd after \<in> set seg"
    by (cases after) (auto simp: seg_def)
  then have "\<exists>b\<in>set seg. ?P b" using \<open>?P (hd after)\<close> by blast
  then obtain run h body where seg: "seg = run @ h # body" "?P h" "\<forall>b\<in>set body. \<not> ?P b"
    using split_list_last_prop [of seg ?P] by blast
  have noend: "\<forall>b\<in>set seg. \<not> ?E b"
    unfolding seg_def by (auto dest: set_takeWhileD)
  have run: "\<forall>b\<in>set run. \<not> ?E b" using noend seg(1) by simp
  have body: "\<forall>b\<in>set body. \<not> is_heading b" using noend seg(1,3) by auto
  have rest: "rest = [] \<or> ?E (hd rest)"
    unfolding rest_def using hd_dropWhile [of "\<lambda>b. \<not> ?E b" after] by blast
  from blocks seg(1) have "blocks = pre @ run @ [h] @ body @ rest" by simp
  with pre run seg(2) body rest show ?thesis by blast
qed

text \<open>
  Claim C1, as the code has it. Split the page as \<open>pre @ run @ [h] @ body @ rest\<close>:
  \<open>pre\<close> holds no matching heading, \<open>run\<close> holds no heading other than matching ones, \<open>h\<close> is
  a matching heading, \<open>body\<close> holds no heading, and \<open>rest\<close> is empty or begins with a heading
  that does not match. Then the section starts at \<open>h\<close>, the last matching heading before
  the first non-matching heading that follows a match, and ends at the first block of
  \<open>rest\<close>, or at the end of the page when \<open>rest\<close> is empty. With \<open>run\<close> empty, \<open>h\<close> is the
  first matching heading and the section ends at the next heading, which does not match.
\<close>

theorem findProjectInfoSection_bounds:
  assumes pre: "\<forall>b\<in>set pre. \<not> is_project_info_heading toLowerCase b"
    and run: "\<forall>b\<in>set run. \<not> (is_heading b \<and> \<not> is_project_info_heading toLowerCase b)"
    and h: "is_project_info_heading toLowerCase h"
    and body: "\<forall>b\<in>set body. \<not> is_heading b"
    and rest: "rest = [] \<or>
       (is_heading (hd rest) \<and> \<not> is_project_info_heading toLowerCase (hd rest))"
  shows "findProjectInfoSection toLowerCase (pre @ run @ [h] @ body @ rest) =
         Some \<lparr> startIndex = int (length pre + length run),
                 endIndex = int (length pre + length run + 1 + length body),
                 heading = h \<rparr>"
proof -
  let ?k = "int (length pre) + int (length run)"
  obtain p' where
    "findProjectInfoSection_loop toLowerCase (run @ [h] @ body @ rest) (0 + int (length pre)) (-1) =
     findProjectInfoSection_loop toLowerCase ([h] @ body @ rest)
       (0 + int (length pre) + int (length run)) p'"
    using loop_run [OF run] by blast
  then have "findProjectInfoSection_loop toLowerCase (pre @ run @ [h] @ body @ rest) 0 (-1) =
     findProjectInfoSection_loop toLowerCase (h # body @ rest) ?k p'"
    using loop_no_match [OF pre, of "run @ [h] @ body @ rest" 0] by simp
  also have "\<dots> = findProjectInfoSection_loop toLowerCase (body @ rest) (?k + 1) ?k"
    using h by (rule loop_step_match)
  also have "\<dots> = findProjectInfoSection_loop toLowerCase rest (?k + 1 + int (length body)) ?k"
    using body by (rule loop_body)
  also have "\<dots> = (?k, if rest = [] then -1 else ?k + 1 + int (length body))"
    using rest by (intro loop_rest) auto
  finally have L:
    "findProjectInfoSection_loop toLowerCase (pre @ run @ [h] @ body @ rest) 0 (-1) =
     (?k, if rest = [] then -1 else ?k + 1 + int (length body))" .
  have nth: "(pre @ run @ [h] @ body @ rest) ! (length pre + length run) = h"
    by (simp add: nth_append)
  have k: "nat ?k = length pre + length run" by simp
  show ?thesis
    unfolding findProjectInfoSection_def L prod.case k nth
    by (cases "rest = []") simp_all
qed

lemma ex_blocks_facts:
  "\<not> is_heading ex_para"
  "is_project_info_heading latin1_toLowerCase ex_info1"
  "is_project_info_heading latin1_toLowerCase ex_info2"
  "\<not> is_heading ex_bullet"
  "is_heading ex_notes"
  "\<not> is_project_info_heading latin1_toLowerCase ex_notes"
  by (simp_all add: is_project_info_heading_def is_heading_def ex_para_def ex_info1_def
      ex_info2_def ex_bullet_def ex_notes_def js_eval)

theorem findProjectInfoSection_bounds_witness:
  "findProjectInfoSection latin1_toLowerCase [ex_para, ex_info1, ex_info2, ex_bullet, ex_notes] =
     Some \<lparr> startIndex = 2, endIndex = 4, heading = ex_info2 \<rparr>"
proof -
  have pre: "\<forall>b\<in>set [ex_para]. \<not> is_project_info_heading latin1_toLowerCase b"
    using ex_blocks_facts by (simp add: is_project_info_heading_def)
  have run: "\<forall>b\<in>set [ex_info1]. \<not> (is_heading b \<and> \<not> is_project_info_heading latin1_toLowerCase b)"
    using ex_blocks_facts by simp
  have body: "\<forall>b\<in>set [ex_bullet]. \<not> is_heading b"
    using ex_blocks_facts by simp
  have rest: "[ex_notes] = [] \<or>
      (is_heading (hd [ex_notes]) \<and> \<not> is_project_info_heading latin1_toLowerCase (hd [ex_notes]))"
    using ex_blocks_facts by simp
  from findProjectInfoSection_bounds [OF pre run ex_blocks_facts(3) body rest]
  show ?thesis by simp
qed

text \<open>
  The claim as the specification words it fails: on a page whose first matching heading
  (index 0) is directly followed by a second matching heading (index 1), the section does
  not run from 0 to 1; the later heading becomes the start.
\<close>

theorem findProjectInfoSection_repeated_heading_counterexample:
  "is_project_info_heading latin1_toLowerCase ex_info1 \<and> is_heading ex_info2 \<and>
   findProjectInfoSection latin1_toLowerCase [ex_info1, ex_info2, ex_bullet, ex_notes] \<noteq>
     Some \<lparr> startIndex = 0, endIndex = 1, heading = ex_info1 \<rparr> \<and>
   findProjectInfoSection latin1_toLowerCase [ex_info1, ex_info2, ex_bullet, ex_notes] =
     Some \<lparr> startIndex = 1, endIndex = 3, heading = ex_info2 \<rparr>"
proof -
  have "findProjectInfoSection latin1_toLowerCase [ex_info1, ex_info2, ex_bullet, ex_notes] =
     Some \<lparr> startIndex = 1, endIndex = 3, heading = ex_info2 \<rparr>"
    using ex_blocks_facts
    by (simp add: findProjectInfoSection_def loop_step_match loop_step_skip
        loop_step_other_heading is_project_info_heading_def)
  moreover have "is_heading ex_info2"
    using ex_blocks_facts(3) by (simp add: is_project_info_heading_def)
  ultimately show ?thesis using ex_blocks_facts(2) by simp
qed

section \<open>Facts about strings\<close>

lemma startsWith_map: "startsWith s p \<Longrightarrow> startsWith (map f s) (map f p)"
  by (induction s p rule: startsWith.induct) auto

lemma str_includes_map: "str_includes s p \<Longrightarrow> str_includes (map f s) (map f p)"
proof (induction s)
  case Nil
  then show ?case by simp
next
  case (Cons c cs)
  then show ?case using startsWith_map [of "c # cs" p f] by auto
qed




section \<open>Idempotency key\<close>



text \<open>
  White space inside the text is part of the key: only the two ends are trimmed.
\<close>

lemma generateLineKey_inner_space_example:
  "generateLineKey ex_digest latin1_toLowerCase (js ''m1'') (js ''email  karen'') \<noteq>
   generateLineKey ex_digest latin1_toLowerCase (js ''m1'') (js ''email karen'')"
  by (simp add: generateLineKey_def ex_digest_def js_eval)

section \<open>Reprocessing decider\<close>

text \<open>
  Claim C3. An unprocessed page is processed. A processed page whose \<open>Last Processed\<close>
  date is set is processed exactly when its last edit is strictly later than that date;
  equal instants give \<open>False\<close>. A processed page without the date is not processed.
\<close>

theorem shouldProcessMeeting_rules:
  "(Processed page \<noteq> Some True \<longrightarrow> shouldProcessMeeting new_Date page) \<and>
   (Processed page = Some True \<and> Last_Processed page = Some s \<and> s \<noteq> [] \<longrightarrow>
      shouldProcessMeeting new_Date page =
        (\<exists>edited processed. new_Date (last_edited_time page) = Some edited \<and>
           new_Date s = Some processed \<and> processed < edited)) \<and>
   (Processed page = Some True \<and> Last_Processed page = Some s \<and> s \<noteq> [] \<and>
      new_Date (last_edited_time page) = new_Date s \<longrightarrow>
      \<not> shouldProcessMeeting new_Date page) \<and>
   (Processed page = Some True \<and> (Last_Processed page = None \<or> Last_Processed page = Some []) \<longrightarrow>
      \<not> shouldProcessMeeting new_Date page)"
  by (auto simp: shouldProcessMeeting_def date_gt_def split: option.splits)

theorem shouldProcessMeeting_rules_witness:
  "shouldProcessMeeting ex_new_Date ex_page_new \<and>
   shouldProcessMeeting ex_new_Date ex_page_edited \<and>
   \<not> shouldProcessMeeting ex_new_Date ex_page_same \<and>
   \<not> shouldProcessMeeting ex_new_Date ex_page_unset"
proof -
  have "shouldProcessMeeting ex_new_Date ex_page_new"
    using shouldProcessMeeting_rules [of ex_page_new ex_new_Date]
    by (simp add: ex_page_new_def)
  moreover have "shouldProcessMeeting ex_new_Date ex_page_edited"
    using shouldProcessMeeting_rules [of ex_page_edited ex_new_Date "js ''tt''"]
    by (simp add: ex_page_edited_def ex_new_Date_def js_def)
  moreover have "\<not> shouldProcessMeeting ex_new_Date ex_page_same"
    using shouldProcessMeeting_rules [of ex_page_same ex_new_Date "js ''ttt''"]
    by (simp add: ex_page_same_def ex_new_Date_def js_def)
  moreover have "\<not> shouldProcessMeeting ex_new_Date ex_page_unset"
    using shouldProcessMeeting_rules [of ex_page_unset ex_new_Date]
    by (simp add: ex_page_unset_def)
  ultimately show ?thesis by blast
qed

section \<open>Priority parser\<close>

lemma count_keywords_filter:
  "count_keywords t ks n = n + length (filter (str_includes t) ks)"
  by (induction ks arbitrary: n) auto

lemma parsePriority_unfold:
  "parsePriority toLowerCase s =
     (if high_priority_rule toLowerCase s then js ''High''
      else if list_ex (str_includes (toLowerCase s)) lowKeywords then js ''Low''
      else js ''Medium'')"
proof -
  have low: "(1 \<le> length (filter (str_includes (toLowerCase s)) lowKeywords)
        \<or> str_includes (toLowerCase s) (js ''low priority''))
      = list_ex (str_includes (toLowerCase s)) lowKeywords"
  proof -
    have "js ''low priority'' \<in> set lowKeywords" by (simp add: lowKeywords_def)
    then show ?thesis
      by (auto simp: list_ex_iff Suc_le_eq length_greater_0_conv filter_empty_conv
          simp del: length_greater_0_conv)
  qed
  show ?thesis
    unfolding parsePriority_def Let_def count_keywords_filter high_priority_rule_def
    using low by simp
qed

text \<open>
  Claim C10, as the code has it. \<open>parsePriority\<close> returns one of \<open>High\<close>, \<open>Medium\<close>, \<open>Low\<close> on
  every text, and which one is settled by the case-folded text alone. It is \<open>High\<close> exactly
  when the folded text contains \<open>urgent\<close>, or contains \<open>high priority\<close>, or contains two or
  more of the eleven high-priority keywords; low-priority keywords do not matter then.
  Otherwise it is \<open>Low\<close> when the folded text contains one of the nine low-priority
  keywords, and \<open>Medium\<close> when it contains none.
\<close>

theorem parsePriority_cases:
  "parsePriority toLowerCase s \<in> {js ''High'', js ''Medium'', js ''Low''} \<and>
   parsePriority toLowerCase s =
     (if str_includes (toLowerCase s) (js ''urgent'')
         \<or> str_includes (toLowerCase s) (js ''high priority'')
         \<or> 2 \<le> length (filter (str_includes (toLowerCase s))
                [js ''urgent'', js ''asap'', js ''critical'', js ''emergency'',
                 js ''immediately'', js ''high priority'', js ''top priority'',
                 js ''blocking'', js ''must have'', js ''important'', js ''crucial''])
      then js ''High''
      else if \<exists>k\<in>set [js ''nice to have'', js ''when you can'', js ''low priority'',
                 js ''optional'', js ''future'', js ''someday'', js ''backlog'',
                 js ''eventually'', js ''if time'']. str_includes (toLowerCase s) k
      then js ''Low''
      else js ''Medium'')"
proof -
  have unfold: "parsePriority toLowerCase s =
     (if high_priority_rule toLowerCase s then js ''High''
      else if list_ex (str_includes (toLowerCase s)) lowKeywords then js ''Low''
      else js ''Medium'')"
    by (rule parsePriority_unfold)
  have high: "high_priority_rule toLowerCase s \<longleftrightarrow>
     str_includes (toLowerCase s) (js ''urgent'')
     \<or> str_includes (toLowerCase s) (js ''high priority'')
     \<or> 2 \<le> length (filter (str_includes (toLowerCase s))
            [js ''urgent'', js ''asap'', js ''critical'', js ''emergency'',
             js ''immediately'', js ''high priority'', js ''top priority'',
             js ''blocking'', js ''must have'', js ''important'', js ''crucial''])"
    unfolding high_priority_rule_def highKeywords_def list.map by blast
  have low: "list_ex (str_includes (toLowerCase s)) lowKeywords \<longleftrightarrow>
     (\<exists>k\<in>set [js ''nice to have'', js ''when you can'', js ''low priority'',
                 js ''optional'', js ''future'', js ''someday'', js ''backlog'',
                 js ''eventually'', js ''if time'']. str_includes (toLowerCase s) k)"
    unfolding lowKeywords_def list.map list_ex_iff ..
  show ?thesis unfolding unfold high low by simp
qed

theorem parsePriority_cases_witness:
  "parsePriority latin1_toLowerCase (js ''URGENT: optional cleanup'') = js ''High'' \<and>
   parsePriority latin1_toLowerCase (js ''Important and crucial, but optional'') = js ''High'' \<and>
   parsePriority latin1_toLowerCase (js ''Optional cleanup, not critical'') = js ''Low'' \<and>
   parsePriority latin1_toLowerCase (js ''Write the report'') = js ''Medium''"
proof -
  have "parsePriority latin1_toLowerCase (js ''URGENT: optional cleanup'') = js ''High''"
    using parsePriority_cases [of latin1_toLowerCase "js ''URGENT: optional cleanup''"]
    by (simp add: js_eval)
  moreover
  have "parsePriority latin1_toLowerCase (js ''Important and crucial, but optional'') =
      js ''High''"
    using parsePriority_cases [of latin1_toLowerCase "js ''Important and crucial, but optional''"]
    by (simp add: js_eval)
  moreover
  have "parsePriority latin1_toLowerCase (js ''Optional cleanup, not critical'') = js ''Low''"
    using parsePriority_cases [of latin1_toLowerCase "js ''Optional cleanup, not critical''"]
    by (simp add: js_eval)
  moreover
  have "parsePriority latin1_toLowerCase (js ''Write the report'') = js ''Medium''"
    using parsePriority_cases [of latin1_toLowerCase "js ''Write the report''"]
    by (simp add: js_eval)
  ultimately show ?thesis by blast
qed

text \<open>
  The claim as the specification words it fails. \<open>asap critical\<close> contains neither \<open>urgent\<close>
  nor \<open>high priority\<close> and no low-priority keyword, so the claim's last case gives \<open>Medium\<close>;
  the program counts two high-priority keywords and returns \<open>High\<close>.
\<close>

theorem parsePriority_two_keywords_counterexample:
  "\<not> str_includes (js ''asap critical'') (js ''urgent'') \<and>
   \<not> str_includes (js ''asap critical'') (js ''high priority'') \<and>
   \<not> str_includes (latin1_toLowerCase (js ''asap critical'')) (js ''urgent'') \<and>
   \<not> str_includes (latin1_toLowerCase (js ''asap critical'')) (js ''high priority'') \<and>
   filter (str_includes (latin1_toLowerCase (js ''asap critical''))) lowKeywords = [] \<and>
   parsePriority latin1_toLowerCase (js ''asap critical'') \<noteq> js ''Medium'' \<and>
   parsePriority latin1_toLowerCase (js ''asap critical'') = js ''High''"
  by (simp add: parsePriority_def highKeywords_def lowKeywords_def js_eval)

text \<open>
  On texts of code units below 256 the folding is \<open>latin1_toLowerCase\<close>, which keeps
  \<open>urgent\<close> and \<open>high priority\<close> where the text has them as written.
\<close>

lemma parsePriority_as_written:
  assumes "str_includes s (js ''urgent'') \<or> str_includes s (js ''high priority'')"
  shows "parsePriority latin1_toLowerCase s = js ''High''"
proof -
  have "latin1_toLowerCase (js ''urgent'') = js ''urgent''"
    "latin1_toLowerCase (js ''high priority'') = js ''high priority''"
    by (simp_all add: js_eval)
  with assms have "str_includes (latin1_toLowerCase s) (js ''urgent'')
      \<or> str_includes (latin1_toLowerCase s) (js ''high priority'')"
    using str_includes_map [of s "js ''urgent''" latin1_toLowerCase_unit]
      str_includes_map [of s "js ''high priority''" latin1_toLowerCase_unit]
    by (auto simp: latin1_toLowerCase_def)
  then show ?thesis by (auto simp: parsePriority_unfold high_priority_rule_def)
qed

section \<open>Project inference\<close>

lemma find_project_first:
  "find_project toLowerCase tok tbl = Some p \<Longrightarrow>
   \<exists>kws before after. tbl = before @ (p, kws) # after \<and>
     token_matches toLowerCase tok (p, kws) \<and>
     (\<forall>e\<in>set before. \<not> token_matches toLowerCase tok e)"
proof (induction toLowerCase tok tbl rule: find_project.induct)
  case (1 toLowerCase projectName)
  then show ?case by simp
next
  case (2 toLowerCase projectName proj kwds rest)
  show ?case
  proof (cases "token_matches toLowerCase projectName (proj, kwds)")
    case True
    with "2.prems" have "p = proj" by (simp add: token_matches_def)
    with True have "(proj, kwds) # rest = [] @ (p, kwds) # rest \<and>
        token_matches toLowerCase projectName (p, kwds) \<and>
        (\<forall>e\<in>set []. \<not> token_matches toLowerCase projectName e)" by simp
    then show ?thesis by blast
  next
    case False
    with "2.prems" have "find_project toLowerCase projectName rest = Some p"
      by (simp add: token_matches_def)
    with "2.IH" False obtain kws before after where
      "rest = before @ (p, kws) # after" "token_matches toLowerCase projectName (p, kws)"
      "\<forall>e\<in>set before. \<not> token_matches toLowerCase projectName e"
      by (auto simp: token_matches_def)
    with False
    have "(proj, kwds) # rest = ((proj, kwds) # before) @ (p, kws) # after \<and>
        token_matches toLowerCase projectName (p, kws) \<and>
        (\<forall>e\<in>set ((proj, kwds) # before). \<not> token_matches toLowerCase projectName e)"
      by simp
    then show ?thesis by blast
  qed
qed

lemma find_project_None:
  "find_project toLowerCase tok tbl = None \<Longrightarrow>
   \<forall>e\<in>set tbl. \<not> token_matches toLowerCase tok e"
  by (induction toLowerCase tok tbl rule: find_project.induct)
     (auto simp: token_matches_def split: if_splits)

text \<open>The first entry of a list with a property is the same however the list is split.\<close>

lemma first_match_unique:
  "b1 @ x # a1 = b2 @ y # a2 \<Longrightarrow> P x \<Longrightarrow> P y \<Longrightarrow>
   \<forall>e\<in>set b1. \<not> P e \<Longrightarrow> \<forall>e\<in>set b2. \<not> P e \<Longrightarrow> x = y"
proof (induction b1 arbitrary: b2)
  case Nil
  then show ?case by (cases b2) auto
next
  case (Cons c b1)
  then show ?case by (cases b2) auto
qed

lemma extractHashtagProject_skip:
  assumes "\<forall>b\<in>set pre. btype b = js ''paragraph'' \<longrightarrow>
             (\<forall>tok. match_proj_tag (plain_text b) = Some tok \<longrightarrow>
                (\<forall>e\<in>set PROJECT_KEYWORDS. \<not> token_matches toLowerCase (toLowerCase tok) e))"
  shows "extractHashtagProject toLowerCase (pre @ rest) = extractHashtagProject toLowerCase rest"
  using assms
proof (induction pre)
  case Nil
  then show ?case by simp
next
  case (Cons b pre)
  then have IH: "extractHashtagProject toLowerCase (pre @ rest) =
      extractHashtagProject toLowerCase rest" by simp
  show ?case
  proof (cases "btype b = js ''paragraph''")
    case False
    then show ?thesis using IH by simp
  next
    case True
    show ?thesis
    proof (cases "match_proj_tag (plain_text b)")
      case None
      then show ?thesis using IH True by simp
    next
      case (Some tok)
      with Cons.prems True
      have no: "\<forall>e\<in>set PROJECT_KEYWORDS. \<not> token_matches toLowerCase (toLowerCase tok) e"
        by simp
      have "find_project toLowerCase (toLowerCase tok) PROJECT_KEYWORDS = None"
      proof (cases "find_project toLowerCase (toLowerCase tok) PROJECT_KEYWORDS")
        case None
        then show ?thesis .
      next
        case (Some q)
        from find_project_first [OF this] obtain kws before after where
          sp: "PROJECT_KEYWORDS = before @ (q, kws) # after"
          and tm: "token_matches toLowerCase (toLowerCase tok) (q, kws)" by blast
        have "(q, kws) \<in> set (before @ (q, kws) # after)" by simp
        then have "(q, kws) \<in> set PROJECT_KEYWORDS" by (simp only: sp)
        with no tm show ?thesis by blast
      qed
      then show ?thesis using IH True Some by simp
    qed
  qed
qed

text \<open>
  Claim C7, as the code has it. \<open>match_proj_tag\<close> yields the token of the first override
  tag of a paragraph. Let \<open>b\<close> be the first paragraph whose first tag has a token that
  matches a known project (the case-folded token is contained in the case-folded project
  name or in one of its keywords). Then \<open>inferProject\<close> returns confidence 1 and the first
  project in the order of the table that this token matches: the table splits into the
  entries \<open>before\<close>, none of which the token matches, the entry of the returned project,
  which it matches, and the entries \<open>after\<close>. The title plays no part.
\<close>

theorem inferProject_override:
  assumes pre: "\<forall>b'\<in>set pre. btype b' = js ''paragraph'' \<longrightarrow>
             (\<forall>tok'. match_proj_tag (plain_text b') = Some tok' \<longrightarrow>
                (\<forall>e\<in>set PROJECT_KEYWORDS.
                   \<not> token_matches toLowerCase (toLowerCase tok') e))"
    and para: "btype b = js ''paragraph''"
    and tag: "match_proj_tag (plain_text b) = Some tok"
    and known: "e \<in> set PROJECT_KEYWORDS" "token_matches toLowerCase (toLowerCase tok) e"
  shows "\<exists>p kws before after.
           inferProject toLowerCase title (pre @ b # post) =
             \<lparr> project = p, confidence = 1 \<rparr> \<and>
           PROJECT_KEYWORDS = before @ (p, kws) # after \<and>
           token_matches toLowerCase (toLowerCase tok) (p, kws) \<and>
           (\<forall>e'\<in>set before. \<not> token_matches toLowerCase (toLowerCase tok) e')"
proof -
  from known obtain p where
    p: "find_project toLowerCase (toLowerCase tok) PROJECT_KEYWORDS = Some p"
    using find_project_None [of toLowerCase "toLowerCase tok" PROJECT_KEYWORDS]
    by (cases "find_project toLowerCase (toLowerCase tok) PROJECT_KEYWORDS") auto
  then obtain kws before after where split:
      "PROJECT_KEYWORDS = before @ (p, kws) # after"
      "token_matches toLowerCase (toLowerCase tok) (p, kws)"
      "\<forall>e'\<in>set before. \<not> token_matches toLowerCase (toLowerCase tok) e'"
    using find_project_first by blast
  have "extractHashtagProject toLowerCase (pre @ b # post) =
      extractHashtagProject toLowerCase (b # post)"
    using pre by (rule extractHashtagProject_skip)
  also have "\<dots> = Some \<lparr> project = p, confidence = 1 \<rparr>"
    using para tag p by simp
  finally have "inferProject toLowerCase title (pre @ b # post) =
      \<lparr> project = p, confidence = 1 \<rparr>"
    by (simp add: inferProject_def)
  with split show ?thesis by blast
qed

lemmas re_eval = isWordChar_def canonicalize_def

text \<open>
  The token \<open>Eco\<close> is contained in \<open>recording\<close>, a keyword of Podcast, and in the name of
  Quarterly Economic Review, which stands later in the table; the title names ClickUp.
\<close>

theorem inferProject_override_witness:
  "match_proj_tag (plain_text ex_tag3) = Some (js ''Eco'') \<and>
   token_matches latin1_toLowerCase (latin1_toLowerCase (js ''Eco''))
     (js ''Quarterly Economic Review'',
      map js [''qer'', ''economic review'', ''quarterly'', ''eco repo'']) \<and>
   infer_from_title (latin1_toLowerCase (js ''ClickUp sync'')) PROJECT_KEYWORDS =
     \<lparr> project = js ''ClickUp'', confidence = 8 / 10 \<rparr> \<and>
   inferProject latin1_toLowerCase (js ''ClickUp sync'') [ex_para, ex_tag3] =
     \<lparr> project = js ''Podcast'', confidence = 1 \<rparr>"
proof -
  let ?L = latin1_toLowerCase
  let ?tok = "latin1_toLowerCase (js ''Eco'')"
  let ?podcast = "(js ''Podcast'', map js [''podcast'', ''episode'', ''recording'', ''riverside''])"
  let ?qer = "(js ''Quarterly Economic Review'',
      map js [''qer'', ''economic review'', ''quarterly'', ''eco repo''])"
  let ?before = "[(js ''ClickUp'', map js [''clickup'', ''click up'', ''click-up'', ''cu'', ''cuarc'']),
      (js ''Docebo'', map js [''docebo'', ''lms'', ''learning management'', ''cogent uni'', ''uni'']),
      (js ''HubSpot'', map js [''hubspot'', ''crm'', ''hs'', ''hub spot'']),
      (js ''AI Sales'',
       map js [''ai sales'', ''retell'', ''retellai'', ''retell ai'', ''sai'', ''sales ai'']),
      (js ''Insider Knowledge'', map js [''insider'', ''insider knowledge'', ''ik'', ''merlin'']),
      (js ''PD OTN'', map js [''pd'', ''otn'', ''pd otn'', ''professional development''])]"
  have pre: "\<forall>b'\<in>set [ex_para]. btype b' = js ''paragraph'' \<longrightarrow>
             (\<forall>tok'. match_proj_tag (plain_text b') = Some tok' \<longrightarrow>
                (\<forall>e\<in>set PROJECT_KEYWORDS. \<not> token_matches ?L (?L tok') e))"
    by (simp add: ex_para_def js_eval re_eval)
  have para: "btype ex_tag3 = js ''paragraph''" by (simp add: ex_tag3_def)
  have tag: "match_proj_tag (plain_text ex_tag3) = Some (js ''Eco'')"
    by (simp add: ex_tag3_def js_eval re_eval)
  have qer: "?qer \<in> set PROJECT_KEYWORDS" "token_matches ?L ?tok ?qer"
    by (simp_all add: PROJECT_KEYWORDS_def token_matches_def js_eval)
  have table: "PROJECT_KEYWORDS = ?before @ ?podcast # [?qer, (js ''Support/Other'', [])]"
    by (simp add: PROJECT_KEYWORDS_def)
  have podcast: "token_matches ?L ?tok ?podcast"
    by (simp add: token_matches_def js_eval)
  have before: "\<forall>e\<in>set ?before. \<not> token_matches ?L ?tok e"
    by (simp add: token_matches_def js_eval)
  from inferProject_override [OF pre para tag qer, of "js ''ClickUp sync''" "[]"]
  obtain p kws bf af where
    res: "inferProject ?L (js ''ClickUp sync'') [ex_para, ex_tag3] =
       \<lparr> project = p, confidence = 1 \<rparr>"
    and split: "PROJECT_KEYWORDS = bf @ (p, kws) # af"
    and match: "token_matches ?L ?tok (p, kws)"
    and first: "\<forall>e'\<in>set bf. \<not> token_matches ?L ?tok e'"
    by auto
  from split table have "?before @ ?podcast # [?qer, (js ''Support/Other'', [])] =
      bf @ (p, kws) # af" by simp
  from first_match_unique [of ?before ?podcast _ bf "(p, kws)" af "token_matches ?L ?tok",
      OF this podcast match before first]
  have "p = js ''Podcast''" by simp
  moreover have "infer_from_title (?L (js ''ClickUp sync'')) PROJECT_KEYWORDS =
      \<lparr> project = js ''ClickUp'', confidence = 8 / 10 \<rparr>"
    by (simp add: PROJECT_KEYWORDS_def js_eval)
  ultimately show ?thesis using res tag qer(2) by simp
qed

text \<open>
  The claim as the specification words it fails: a paragraph may contain an override tag
  whose token matches a known project and still not override, when an earlier tag of the
  same paragraph matches nothing. The title then decides.
\<close>

theorem inferProject_second_tag_counterexample:
  "btype ex_tag2 = js ''paragraph'' \<and>
   str_includes (plain_text ex_tag2) (js ''#proj:hubspot'') \<and>
   ex_hubspot_entry \<in> set PROJECT_KEYWORDS \<and>
   token_matches latin1_toLowerCase (js ''hubspot'') ex_hubspot_entry \<and>
   inferProject latin1_toLowerCase (js ''ClickUp sync'') [ex_tag2] =
     \<lparr> project = js ''ClickUp'', confidence = 8 / 10 \<rparr> \<and>
   confidence (inferProject latin1_toLowerCase (js ''ClickUp sync'') [ex_tag2]) \<noteq> 1"
proof -
  have "match_proj_tag (plain_text ex_tag2) = Some (js ''zzz'')"
    by (simp add: ex_tag2_def js_eval re_eval)
  moreover
  have "find_project latin1_toLowerCase (latin1_toLowerCase (js ''zzz'')) PROJECT_KEYWORDS = None"
    by (simp add: PROJECT_KEYWORDS_def js_eval)
  moreover
  have "infer_from_title (latin1_toLowerCase (js ''ClickUp sync'')) PROJECT_KEYWORDS =
      \<lparr> project = js ''ClickUp'', confidence = 8 / 10 \<rparr>"
    by (simp add: PROJECT_KEYWORDS_def js_eval)
  moreover have para: "btype ex_tag2 = js ''paragraph''" by (simp add: ex_tag2_def)
  ultimately have "inferProject latin1_toLowerCase (js ''ClickUp sync'') [ex_tag2] =
      \<lparr> project = js ''ClickUp'', confidence = 8 / 10 \<rparr>"
    by (simp add: inferProject_def)
  moreover have "str_includes (plain_text ex_tag2) (js ''#proj:hubspot'')"
    by (simp add: ex_tag2_def js_eval)
  moreover have "ex_hubspot_entry \<in> set PROJECT_KEYWORDS"
    "token_matches latin1_toLowerCase (js ''hubspot'') ex_hubspot_entry"
    by (simp_all add: PROJECT_KEYWORDS_def ex_hubspot_entry_def token_matches_def js_eval)
  ultimately show ?thesis using para by simp
qed

section \<open>Remote call wrapper\<close>

declare apiCall_loop.simps [simp del]

lemma getBackoffDelay_unfold:
  "getBackoffDelay fl r j = fl (min (1000 * 2 ^ j) 10000 + fl (r * 1000))"
  by (simp add: getBackoffDelay_def Let_def)

lemma apiCall_loop_retry:
  "attempt < MAX_RETRIES \<Longrightarrow> transient_failure (fn attempt) \<Longrightarrow>
   apiCall_loop fn fl random attempt lastError trace =
     apiCall_loop fn fl random (attempt + 1)
       (case fn attempt of Inl e \<Rightarrow> Some e | Inr v \<Rightarrow> None)
       (trace @ retried_round fl random attempt)"
  by (subst apiCall_loop.simps)
     (auto simp: transient_failure_def retried_round_def RATE_LIMIT_DELAY_def
        getBackoffDelay_unfold split: sum.splits)

lemma apiCall_loop_stop:
  "attempt < MAX_RETRIES \<Longrightarrow> \<not> transient_failure (fn attempt) \<Longrightarrow>
   apiCall_loop fn fl random attempt lastError trace =
     (outcome (fn attempt), trace @ [Delay RATE_LIMIT_DELAY, Call attempt])"
  by (subst apiCall_loop.simps)
     (auto simp: transient_failure_def outcome_def split: sum.splits)

lemma apiCall_loop_exhausted:
  "apiCall_loop fn fl random MAX_RETRIES lastError trace = (Inl lastError, trace)"
  by (subst apiCall_loop.simps) simp

lemma apiCall_loop_prefix:
  "attempt + k \<le> MAX_RETRIES \<Longrightarrow> \<forall>j<k. transient_failure (fn (attempt + j)) \<Longrightarrow>
   apiCall_loop fn fl random attempt lastError trace =
     apiCall_loop fn fl random (attempt + k)
       (if k = 0 then lastError
        else (case fn (attempt + k - 1) of Inl e \<Rightarrow> Some e | Inr v \<Rightarrow> None))
       (trace @ concat (map (retried_round fl random) [attempt..<attempt + k]))"
proof (induction k)
  case 0
  then show ?case by simp
next
  case (Suc k)
  let ?le = "if k = 0 then lastError
        else (case fn (attempt + k - 1) of Inl e \<Rightarrow> Some e | Inr v \<Rightarrow> None)"
  let ?tr = "trace @ concat (map (retried_round fl random) [attempt..<attempt + k])"
  from Suc have "apiCall_loop fn fl random attempt lastError trace =
     apiCall_loop fn fl random (attempt + k) ?le ?tr" by simp
  also have "\<dots> = apiCall_loop fn fl random (attempt + k + 1)
       (case fn (attempt + k) of Inl e \<Rightarrow> Some e | Inr v \<Rightarrow> None)
       (?tr @ retried_round fl random (attempt + k))"
    using Suc.prems by (intro apiCall_loop_retry) auto
  finally show ?case by simp
qed

text \<open>
  The backoff lies within one second above the capped exponential base, for every rounding
  that is monotone and leaves the whole numbers up to 11000 as they are, as the rounding
  to the nearest double does.
\<close>

lemma backoff_bounds:
  assumes r: "0 \<le> r" "r < 1"
    and fl_mono: "\<forall>x y. x \<le> y \<longrightarrow> fl x \<le> fl y"
    and fl_exact: "\<forall>n\<le>11000. fl (real n) = real n"
  shows "min (1000 * 2 ^ j) 10000 \<le> fl (min (1000 * 2 ^ j) 10000 + fl (r * 1000)) \<and>
         fl (min (1000 * 2 ^ j) 10000 + fl (r * 1000)) \<le> min (1000 * 2 ^ j) 10000 + 1000"
proof -
  define base :: nat where "base = min (1000 * 2 ^ j) 10000"
  have base: "min (1000 * 2 ^ j) 10000 = real base"
    unfolding base_def of_nat_min by simp
  have le: "base \<le> 10000" by (simp add: base_def)
  have "fl 0 \<le> fl (r * 1000)" "fl (r * 1000) \<le> fl 1000"
    using r fl_mono by simp_all
  moreover have "fl 0 = 0" "fl 1000 = 1000"
    using fl_exact [rule_format, of 0] fl_exact [rule_format, of 1000] by simp_all
  ultimately have jitter: "0 \<le> fl (r * 1000)" "fl (r * 1000) \<le> 1000" by simp_all
  have "fl (real base) \<le> fl (real base + fl (r * 1000))"
    "fl (real base + fl (r * 1000)) \<le> fl (real (base + 1000))"
    using jitter fl_mono by simp_all
  moreover have "fl (real base) = real base" "fl (real (base + 1000)) = real (base + 1000)"
    using fl_exact [rule_format, of base] fl_exact [rule_format, of "base + 1000"] le
    by simp_all
  ultimately show ?thesis unfolding base by simp
qed

lemma invocations_append: "invocations (xs @ ys) = invocations xs @ invocations ys"
  by (simp add: invocations_def)

lemma invocations_rounds:
  "invocations (concat (map (retried_round fl random) [a..<a + k])) = [a..<a + k]"
proof (induction k)
  case 0
  then show ?case by (simp add: invocations_def)
next
  case (Suc k)
  then show ?case by (simp add: invocations_append) (simp add: invocations_def retried_round_def)
qed

lemma apiCall_prefix:
  assumes k: "k \<le> MAX_RETRIES"
    and transient: "\<forall>j<k. transient_failure (fn j)"
  shows "apiCall fn fl random =
      apiCall_loop fn fl random k
        (if k = 0 then None else (case fn (k - 1) of Inl e \<Rightarrow> Some e | Inr v \<Rightarrow> None))
        (concat (map (retried_round fl random) [0..<k]))"
proof -
  have a: "0 + k \<le> MAX_RETRIES" using k by simp
  have b: "\<forall>j<k. transient_failure (fn (0 + j))" using transient by simp
  show ?thesis
    unfolding apiCall_def
    by (rule apiCall_loop_prefix [of 0 k fn fl random None "[]", OF a b,
          unfolded add_0 append_Nil])
qed

lemma apiCall_run:
  assumes k: "k \<le> MAX_RETRIES"
    and transient: "\<forall>j<k. transient_failure (fn j)"
    and stop: "k < MAX_RETRIES \<longrightarrow> \<not> transient_failure (fn k)"
  shows "apiCall fn fl random =
           (outcome (fn (min k (MAX_RETRIES - 1))),
            concat (map (retried_round fl random) [0..<k]) @
              (if k < MAX_RETRIES then [Delay RATE_LIMIT_DELAY, Call k] else []))"
proof (cases "k < MAX_RETRIES")
  case True
  with stop have "\<not> transient_failure (fn k)" by simp
  from apiCall_loop_stop [of k fn, OF True this]
  have "apiCall fn fl random =
      (outcome (fn k),
       concat (map (retried_round fl random) [0..<k]) @ [Delay RATE_LIMIT_DELAY, Call k])"
    unfolding apiCall_prefix [OF k transient] by blast
  moreover have "min k (MAX_RETRIES - 1) = k" using True by simp
  ultimately show ?thesis using True by simp
next
  case False
  with k have eq: "k = MAX_RETRIES" by simp
  then have "transient_failure (fn (MAX_RETRIES - 1))"
    using transient by (simp add: MAX_RETRIES_def)
  then have "Inl (case fn (MAX_RETRIES - 1) of Inl e \<Rightarrow> Some e | Inr v \<Rightarrow> None)
      = outcome (fn (MAX_RETRIES - 1))"
    by (auto simp: transient_failure_def outcome_def split: sum.splits)
  moreover have "MAX_RETRIES \<noteq> 0" by (simp add: MAX_RETRIES_def)
  ultimately have "apiCall fn fl random =
      (outcome (fn (MAX_RETRIES - 1)), concat (map (retried_round fl random) [0..<k]))"
    unfolding apiCall_prefix [OF k transient] unfolding eq apiCall_loop_exhausted by simp
  then show ?thesis using eq by simp
qed

text \<open>
  Claim C8. A round fails transiently when the wrapped call throws an error with code
  \<open>rate_limited\<close> or status 429. Let \<open>k\<close> be the number of leading rounds that fail
  transiently, capped at the ceiling 5. Then \<open>apiCall\<close> invokes the wrapped call in the
  rounds \<open>0 .. k\<close> only, at most five times, each time after the pacing delay of 350 ms.
  Each of the \<open>k\<close> transient failures is followed by one backoff delay: the sum of the base
  \<open>min (1000 * 2 ^ j) 10000\<close> and the jitter \<open>Math.random() * 1000\<close> of that round, computed
  in doubles, which lies between the base and one second more. The first round that
  returns or throws anything else ends the run at once with that value or error. When all
  five rounds fail transiently the last error is thrown.

  The bounds need of the rounding \<open>fl\<close> only that it is monotone and exact on the whole
  numbers up to 11000; with \<open>Math.random()\<close> just below 1 the upper bound is reached.
\<close>

theorem apiCall_retry_policy:
  fixes fn :: "nat \<Rightarrow> error + 'a"
  assumes k: "k \<le> 5"
    and transient: "\<forall>j<k. \<exists>e. fn j = Inl e \<and>
        (err_code e = Some (js ''rate_limited'') \<or> err_status e = Some 429)"
    and stop: "k < 5 \<longrightarrow> (\<forall>e. fn k = Inl e \<longrightarrow>
        err_code e \<noteq> Some (js ''rate_limited'') \<and> err_status e \<noteq> Some 429)"
    and rnd: "\<forall>j. 0 \<le> random j \<and> random j < 1"
    and fl_mono: "\<forall>x y. x \<le> y \<longrightarrow> fl x \<le> fl y"
    and fl_exact: "\<forall>n\<le>11000. fl (real n) = real n"
  shows "apiCall fn fl random =
           ((case fn (min k 4) of Inl e \<Rightarrow> Inl (Some e) | Inr v \<Rightarrow> Inr v),
            concat (map (\<lambda>j. [Delay 350, Call j,
                Delay (fl (min (1000 * 2 ^ j) 10000 + fl (random j * 1000)))]) [0..<k]) @
              (if k < 5 then [Delay 350, Call k] else []))
         \<and> invocations (snd (apiCall fn fl random)) = [0..<min (k + 1) 5]
         \<and> length (invocations (snd (apiCall fn fl random))) \<le> 5
         \<and> (\<forall>j<k.
               min (1000 * 2 ^ j) 10000
                 \<le> fl (min (1000 * 2 ^ j) 10000 + fl (random j * 1000)) \<and>
               fl (min (1000 * 2 ^ j) 10000 + fl (random j * 1000))
                 \<le> min (1000 * 2 ^ j) 10000 + 1000)"
proof -
  have k': "k \<le> MAX_RETRIES" using k by (simp add: MAX_RETRIES_def)
  have transient': "\<forall>j<k. transient_failure (fn j)"
    using transient by (auto simp: transient_failure_def is_rate_limited_def)
  have stop': "k < MAX_RETRIES \<longrightarrow> \<not> transient_failure (fn k)"
    using stop
    by (auto simp: transient_failure_def is_rate_limited_def MAX_RETRIES_def split: sum.splits)
  note run = apiCall_run [OF k' transient' stop', of fl random]
  have rounds: "invocations (concat (map (retried_round fl random) [0..<k])) = [0..<k]"
    using invocations_rounds [of fl random 0 k] by simp
  have inv: "invocations (snd (apiCall fn fl random)) = [0..<min (k + 1) 5]"
  proof (cases "k < MAX_RETRIES")
    case True
    then have "invocations (snd (apiCall fn fl random)) = [0..<k] @ [k]"
      unfolding run by (simp add: invocations_append rounds) (simp add: invocations_def)
    with True show ?thesis by (simp add: min_def MAX_RETRIES_def)
  next
    case False
    then have "invocations (snd (apiCall fn fl random)) = [0..<k]"
      unfolding run by (simp add: rounds)
    with False k show ?thesis by (simp add: min_def MAX_RETRIES_def)
  qed
  have len: "length (invocations (snd (apiCall fn fl random))) \<le> 5"
    unfolding inv by simp
  have bounds: "\<forall>j<k.
      min (1000 * 2 ^ j) 10000 \<le> fl (min (1000 * 2 ^ j) 10000 + fl (random j * 1000)) \<and>
      fl (min (1000 * 2 ^ j) 10000 + fl (random j * 1000)) \<le> min (1000 * 2 ^ j) 10000 + 1000"
    using rnd backoff_bounds [OF _ _ fl_mono fl_exact] by blast
  have trace: "retried_round fl random = (\<lambda>j. [Delay 350, Call j,
      Delay (fl (min (1000 * 2 ^ j) 10000 + fl (random j * 1000)))])"
    by (rule ext) (simp add: retried_round_def)
  have "apiCall fn fl random =
     ((case fn (min k 4) of Inl e \<Rightarrow> Inl (Some e) | Inr v \<Rightarrow> Inr v),
      concat (map (\<lambda>j. [Delay 350, Call j,
          Delay (fl (min (1000 * 2 ^ j) 10000 + fl (random j * 1000)))]) [0..<k]) @
        (if k < 5 then [Delay 350, Call k] else []))"
    using run unfolding trace by (simp add: MAX_RETRIES_def RATE_LIMIT_DELAY_def outcome_def)
  with inv len bounds show ?thesis by blast
qed

theorem apiCall_retry_policy_witness:
  "apiCall ex_fn ex_fl ex_random =
     (Inl (Some ex_500),
      [Delay 350, Call 0, Delay 1500, Delay 350, Call 1, Delay 2250, Delay 350, Call 2]) \<and>
   invocations (snd (apiCall ex_fn ex_fl ex_random)) = [0, 1, 2]"
proof -
  have k: "(2::nat) \<le> 5" by simp
  have t: "\<forall>j<2. \<exists>e. ex_fn j = Inl e \<and>
        (err_code e = Some (js ''rate_limited'') \<or> err_status e = Some 429)"
    by (auto simp: ex_fn_def ex_rate_limited_def ex_429_def less_Suc_eq numeral_2_eq_2)
  have s: "(2::nat) < 5 \<longrightarrow> (\<forall>e. ex_fn 2 = Inl e \<longrightarrow>
        err_code e \<noteq> Some (js ''rate_limited'') \<and> err_status e \<noteq> Some 429)"
    by (simp add: ex_fn_def ex_500_def js_def)
  have r: "\<forall>j. 0 \<le> ex_random j \<and> ex_random j < 1" by (simp add: ex_random_def)
  have m: "\<forall>x y. x \<le> y \<longrightarrow> ex_fl x \<le> ex_fl y" by (simp add: ex_fl_def)
  have e: "\<forall>n\<le>11000. ex_fl (real n) = real n" by (simp add: ex_fl_def)
  have out: "(case ex_fn (min 2 4) of Inl e \<Rightarrow> Inl (Some e) | Inr v \<Rightarrow> Inr v) =
      Inl (Some ex_500)"
    by (simp add: ex_fn_def)
  have rounds: "concat (map (\<lambda>j. [Delay 350, Call j,
        Delay (ex_fl (min (1000 * 2 ^ j) 10000 + ex_fl (ex_random j * 1000)))]) [0..<2]) =
      [Delay 350, Call 0, Delay 1500, Delay 350, Call 1, Delay 2250]"
    by (simp add: ex_random_def ex_fl_def upt_conv_Cons)
  have upt: "[0..<min (2 + 1) 5] = [0, 1, 2::nat]"
    by (simp add: upt_conv_Cons)
  note policy = apiCall_retry_policy [OF k t s r m e, unfolded out rounds upt]
  have "(if (2::nat) < 5 then [Delay 350, Call 2] else []) = [Delay 350, Call 2]"
    by simp
  with policy show ?thesis by (simp add: invocations_def)
qed

section \<open>Project page updater\<close>

declare appendToSection.simps [simp del]

lemma find_section_block_Some:
  "find_section_block blocks h = Some b \<Longrightarrow> b \<in> set blocks \<and> section_matches h b"
  by (induction blocks) (auto simp: section_matches_def Let_def split: if_splits)

lemma effects_tick [simp]: "effects (tick s) = effects s" "clock (tick s) = clock s + 1"
  by (simp_all add: tick_def)

lemma effects_perform [simp]:
  "effects (perform a s) = effects s @ [a]" "clock (perform a s) = clock s + 1"
  by (simp_all add: perform_def)

lemma only_targets_refl [simp]: "only_targets w H s s"
  by (simp add: only_targets_def)

lemma only_targets_tick [simp]: "only_targets w H (tick s) s' = only_targets w H s s'"
  by (simp add: only_targets_def)

lemma only_targets_tick_right [simp]: "only_targets w H s (tick s)"
  by (simp add: only_targets_def)

lemma only_targets_trans:
  "only_targets w H s s' \<Longrightarrow> only_targets w H s' s'' \<Longrightarrow> only_targets w H s s''"
  by (auto simp: only_targets_def)

lemma only_targets_mono: "only_targets w H s s' \<Longrightarrow> H \<subseteq> H' \<Longrightarrow> only_targets w H' s s'"
  unfolding only_targets_def by blast

lemma only_targets_perform:
  "targets w h a \<Longrightarrow> h \<in> H \<Longrightarrow> only_targets w H s (perform a s)"
  by (auto simp: only_targets_def)

lemma targets_found:
  "getTopLevelBlocks_r w t pageId = Inr blocks \<Longrightarrow> find_section_block blocks h = Some b \<Longrightarrow>
   targets w h (AppendChildren pageId items (block_id b))"
  unfolding targets_def using find_section_block_Some by blast

lemma appendToSection_effects:
  "appendToSection w pageId h content fb r s = (ok, s') \<Longrightarrow>
   only_targets w (insert h (set_option fb)) s s'"
proof (induction w pageId h content fb r s arbitrary: ok s' rule: appendToSection.induct)
  case (1 w pageId h content fb r s)
  note run = "1.prems" [unfolded appendToSection.simps [of w pageId h content fb r s]]
  show ?case
  proof (cases "getTopLevelBlocks_r w (clock s) pageId")
    case (Inl e)
    show ?thesis
    proof (cases "retriable e r")
      case True
      with run Inl have "appendToSection w pageId h content fb (r + 1) (tick s) = (ok, s')"
        by simp
      from "1.IH"(1) [OF Inl True this] show ?thesis by simp
    next
      case False
      with run Inl show ?thesis by auto
    qed
  next
    case (Inr blocks)
    show ?thesis
    proof (cases "find_section_block blocks h")
      case None
      show ?thesis
      proof (cases fb)
        case fbNone: None
        with run Inr None show ?thesis by auto
      next
        case (Some f)
        show ?thesis
        proof (cases "f \<noteq> [] \<and> h \<noteq> f")
          case True
          with run Inr None Some have "appendToSection w pageId f content None r (tick s) = (ok, s')"
            by simp
          from "1.IH"(2) [OF Inr None Some True this] have "only_targets w {f} s s'" by simp
          then show ?thesis using Some by (auto intro: only_targets_mono)
        next
          case False
          with run Inr None Some show ?thesis by auto
        qed
      qed
    next
      case (Some b)
      let ?a = "AppendChildren pageId (bullet_lines content) (block_id b)"
      have tg: "targets w h ?a" using Inr Some by (rule targets_found)
      then have step: "only_targets w (insert h (set_option fb)) s (perform ?a (tick s))"
        using only_targets_perform [of w h ?a "insert h (set_option fb)" "tick s"] by simp
      show ?thesis
      proof (cases "children_append_r w (clock (tick s)) pageId (bullet_lines content) (block_id b)")
        case None
        with run Inr Some have "s' = perform ?a (tick s)" by simp
        with step show ?thesis by simp
      next
        case e: (Some e)
        show ?thesis
        proof (cases "retriable e r")
          case True
          with run Inr Some e have
            "appendToSection w pageId h content fb (r + 1) (perform ?a (tick s)) = (ok, s')"
            by simp
          from "1.IH"(3) [OF Inr Some e True this] step show ?thesis
            by (rule only_targets_trans [rotated])
        next
          case False
          with run Inr Some e have "s' = perform ?a (tick s)" by simp
          with step show ?thesis by simp
        qed
      qed
    qed
  qed
qed


lemma append_joined_effects:
  "append_joined w pageId items counts s = (counts', s') \<Longrightarrow>
   only_targets w {DECISIONS_HEADING} s s'"
  using appendToSection_effects [of w pageId DECISIONS_HEADING "join items [10]"
      "Some DECISIONS_HEADING" 0 s]
  by (auto simp: append_joined_def split: prod.splits)

lemma findProjectPage_effects:
  "findProjectPage w projectName s = (r, s0) \<Longrightarrow> effects s0 = effects s"
  by (auto simp: findProjectPage_def split: sum.splits list.splits)

lemma heading_title_DECISIONS:
  "heading_title DECISIONS_HEADING = js ''Project Context & Decisions''"
  by (simp add: heading_title_def DECISIONS_HEADING_def js_def)

lemma standard_headings_apart:
  "trim (plain_text b) \<in> {CREDENTIALS_HEADING, CONTACTS_HEADING, LINKS_HEADING} \<Longrightarrow>
   \<not> section_matches DECISIONS_HEADING b"
  unfolding section_matches_def heading_title_DECISIONS
  by (auto simp: CREDENTIALS_HEADING_def CONTACTS_HEADING_def LINKS_HEADING_def
      DECISIONS_HEADING_def js_def)

text \<open>
  Claim C5. When the credentials, contacts and links of a bundle are empty, every request
  that \<open>updateProjectPage\<close> sends appends after a heading of the decisions-log section:
  a top-level heading block of the target page, as read at some instant, whose text is the
  decisions heading or contains its title. The credentials, contacts and links headings
  are no such blocks, so nothing is inserted under them.
\<close>

theorem updateProjectPage_decisions_only:
  assumes "credentials categorized = []" "contacts categorized = []" "links categorized = []"
  shows "(\<exists>new. effects (snd (updateProjectPage w projectName categorized meetingTitle meetingId s))
                 = effects s @ new \<and>
               (\<forall>a\<in>set new. targets w DECISIONS_HEADING a)) \<and>
         (\<forall>b. trim (plain_text b) \<in> {CREDENTIALS_HEADING, CONTACTS_HEADING, LINKS_HEADING}
               \<longrightarrow> \<not> section_matches DECISIONS_HEADING b)"
proof -
  obtain r s0 where f: "findProjectPage w projectName s = (r, s0)" by (cases "findProjectPage w projectName s")
  then have e0: "effects s0 = effects s" by (rule findProjectPage_effects)
  have "only_targets w {DECISIONS_HEADING} s0
          (snd (updateProjectPage w projectName categorized meetingTitle meetingId s))"
  proof (cases r)
    case None
    with f show ?thesis by (simp add: updateProjectPage_def)
  next
    case (Some pageId)
    show ?thesis
    proof (cases "pageId = []")
      case True
      with f Some show ?thesis by (simp add: updateProjectPage_def)
    next
      case False
      obtain c4 s4 where d: "(if decisions categorized \<noteq> []
                   then append_joined w pageId (decisions categorized) (0, 0) s0
                   else ((0, 0), s0)) = (c4, s4)" by (cases "(if decisions categorized \<noteq> []
                   then append_joined w pageId (decisions categorized) (0, 0) s0
                   else ((0, 0), s0))")
      obtain c5 s5 where o: "(if other categorized \<noteq> []
                   then append_joined w pageId (other categorized) c4 s4
                   else (c4, s4)) = (c5, s5)" by (cases "(if other categorized \<noteq> []
                   then append_joined w pageId (other categorized) c4 s4
                   else (c4, s4))")
      have "only_targets w {DECISIONS_HEADING} s0 s4"
        using d append_joined_effects by (auto split: if_splits)
      moreover have "only_targets w {DECISIONS_HEADING} s4 s5"
        using o append_joined_effects by (auto split: if_splits)
      ultimately have "only_targets w {DECISIONS_HEADING} s0 s5" by (rule only_targets_trans)
      moreover have "snd (updateProjectPage w projectName categorized meetingTitle meetingId s) = s5"
        using f Some False assms d o by (simp add: updateProjectPage_def split: prod.splits)
      ultimately show ?thesis by simp
    qed
  qed
  then have "\<exists>new. effects (snd (updateProjectPage w projectName categorized meetingTitle meetingId s))
                 = effects s @ new \<and> (\<forall>a\<in>set new. targets w DECISIONS_HEADING a)"
    using e0 by (simp add: only_targets_def)
  then show ?thesis using standard_headings_apart by blast
qed

text \<open>
  Claim C6. Take an append for a heading other than the decisions log, with the default
  fallback, that reads the page and finds no block for the heading. It goes on as one
  append for the decisions-log heading with no fallback left. If the page, read again,
  has no decisions-log heading either, the result is \<open>False\<close> after these two reads: no
  request was sent and no third lookup made. If it has one and the store accepts the
  request, the items are appended after that heading and the result is \<open>True\<close>.
\<close>

theorem appendToSection_fallback:
  assumes h: "h \<noteq> DECISIONS_HEADING"
    and first: "getTopLevelBlocks_r w (clock s) pageId = Inr blocks1"
    and miss: "find_section_block blocks1 h = None"
    and second: "getTopLevelBlocks_r w (clock s + 1) pageId = Inr blocks2"
  shows "appendToSection w pageId h content (Some DECISIONS_HEADING) r s =
           appendToSection w pageId DECISIONS_HEADING content None r (tick s) \<and>
         (find_section_block blocks2 DECISIONS_HEADING = None \<longrightarrow>
            appendToSection w pageId h content (Some DECISIONS_HEADING) r s =
              (False, tick (tick s))) \<and>
         (\<forall>b. find_section_block blocks2 DECISIONS_HEADING = Some b \<and>
              children_append_r w (clock s + 2) pageId (bullet_lines content) (block_id b) = None
              \<longrightarrow>
            appendToSection w pageId h content (Some DECISIONS_HEADING) r s =
              (True, perform (AppendChildren pageId (bullet_lines content) (block_id b))
                       (tick (tick s))))"
proof -
  have ne: "DECISIONS_HEADING \<noteq> []" by (simp add: DECISIONS_HEADING_def)
  have fb: "appendToSection w pageId h content (Some DECISIONS_HEADING) r s =
           appendToSection w pageId DECISIONS_HEADING content None r (tick s)"
    by (subst appendToSection.simps) (simp add: first miss h ne)
  have second': "getTopLevelBlocks_r w (Suc (clock s)) pageId = Inr blocks2"
    using second by simp
  have none: "find_section_block blocks2 DECISIONS_HEADING = None \<Longrightarrow>
      appendToSection w pageId DECISIONS_HEADING content None r (tick s) = (False, tick (tick s))"
    by (subst appendToSection.simps) (simp add: second')
  have some: "find_section_block blocks2 DECISIONS_HEADING = Some b \<Longrightarrow>
      children_append_r w (clock s + 2) pageId (bullet_lines content) (block_id b) = None \<Longrightarrow>
      appendToSection w pageId DECISIONS_HEADING content None r (tick s) =
        (True, perform (AppendChildren pageId (bullet_lines content) (block_id b)) (tick (tick s)))"
    for b
    by (subst appendToSection.simps) (simp add: second' eval_nat_numeral)
  show ?thesis using fb none some by auto
qed

lemmas world_eval = ex_world_def ex_start_def ex_project_page_def ex_cred_heading_def
  ex_dec_heading_def CREDENTIALS_HEADING_def CONTACTS_HEADING_def LINKS_HEADING_def
  DECISIONS_HEADING_def heading_title_def bullet_lines_def strip_leading_dash_def
  tick_def perform_def formatEntry_def

theorem updateProjectPage_decisions_only_witness:
  "effects (snd (updateProjectPage (ex_world [] ex_project_page) (js ''HubSpot'')
                   ex_decisions_bundle (js ''Weekly sync'') (js ''m1'') ex_start)) =
     [AppendChildren (js ''project-page'') [js ''Use the new API'', js ''Budget approved'']
        (js ''h-dec'')] \<and>
   targets (ex_world [] ex_project_page) DECISIONS_HEADING
     (AppendChildren (js ''project-page'') [js ''Use the new API'', js ''Budget approved'']
        (js ''h-dec''))"
proof -
  let ?a = "AppendChildren (js ''project-page'') [js ''Use the new API'', js ''Budget approved'']
        (js ''h-dec'')"
  have run: "effects (snd (updateProjectPage (ex_world [] ex_project_page) (js ''HubSpot'')
                   ex_decisions_bundle (js ''Weekly sync'') (js ''m1'') ex_start)) = [?a]"
    by (simp add: updateProjectPage_def findProjectPage_def append_joined_def
        ex_decisions_bundle_def appendToSection.simps world_eval js_eval)
  have "credentials ex_decisions_bundle = []" "contacts ex_decisions_bundle = []"
    "links ex_decisions_bundle = []"
    by (simp_all add: ex_decisions_bundle_def)
  from updateProjectPage_decisions_only [OF this, of "ex_world [] ex_project_page"
      "js ''HubSpot''" "js ''Weekly sync''" "js ''m1''" ex_start]
  have "\<forall>a\<in>set [?a]. targets (ex_world [] ex_project_page) DECISIONS_HEADING a"
    unfolding run by (simp add: ex_start_def)
  with run show ?thesis by simp
qed

theorem appendToSection_fallback_witness:
  "appendToSection (ex_world [] ex_project_page) (js ''project-page'') LINKS_HEADING
     (js ''Docs: https://docs.example.com'') (Some DECISIONS_HEADING) 0 ex_start =
     (True, \<lparr> clock = 3,
              effects = [AppendChildren (js ''project-page'')
                           [js ''Docs: https://docs.example.com''] (js ''h-dec'')] \<rparr>) \<and>
   appendToSection (ex_world [] [ex_cred_heading]) (js ''project-page'') LINKS_HEADING
     (js ''Docs: https://docs.example.com'') (Some DECISIONS_HEADING) 0 ex_start =
     (False, \<lparr> clock = 2, effects = [] \<rparr>)"
proof -
  have h: "LINKS_HEADING \<noteq> DECISIONS_HEADING"
    by (simp add: LINKS_HEADING_def DECISIONS_HEADING_def)
  have miss: "find_section_block ex_project_page LINKS_HEADING = None"
    "find_section_block [ex_cred_heading] LINKS_HEADING = None"
    by (simp_all add: world_eval js_eval)
  have dec: "find_section_block ex_project_page DECISIONS_HEADING = Some ex_dec_heading"
    "find_section_block [ex_cred_heading] DECISIONS_HEADING = None"
    by (simp_all add: world_eval js_eval)
  have lines: "bullet_lines (js ''Docs: https://docs.example.com'') =
      [js ''Docs: https://docs.example.com'']"
    by (simp add: world_eval js_eval)
  let ?w1 = "ex_world [] ex_project_page" and ?w2 = "ex_world [] [ex_cred_heading]"
  let ?c = "js ''Docs: https://docs.example.com''"
  have r1: "getTopLevelBlocks_r ?w1 (clock ex_start) (js ''project-page'') = Inr ex_project_page"
    "getTopLevelBlocks_r ?w1 (clock ex_start + 1) (js ''project-page'') = Inr ex_project_page"
    "children_append_r ?w1 (clock ex_start + 2) (js ''project-page'') (bullet_lines ?c)
       (block_id ex_dec_heading) = None"
    by (simp_all add: ex_world_def)
  have r2: "getTopLevelBlocks_r ?w2 (clock ex_start) (js ''project-page'') = Inr [ex_cred_heading]"
    "getTopLevelBlocks_r ?w2 (clock ex_start + 1) (js ''project-page'') = Inr [ex_cred_heading]"
    by (simp_all add: ex_world_def)
  have "appendToSection ?w1 (js ''project-page'') LINKS_HEADING ?c (Some DECISIONS_HEADING) 0
      ex_start =
     (True, perform (AppendChildren (js ''project-page'') (bullet_lines ?c)
                       (block_id ex_dec_heading)) (tick (tick ex_start)))"
    using appendToSection_fallback [OF h r1(1) miss(1) r1(2), of ?c 0] dec(1) r1(3) by blast
  moreover have "appendToSection ?w2 (js ''project-page'') LINKS_HEADING ?c
      (Some DECISIONS_HEADING) 0 ex_start = (False, tick (tick ex_start))"
    using appendToSection_fallback [OF h r2(1) miss(2) r2(2), of ?c 0] dec(2) by blast
  ultimately show ?thesis
    unfolding lines by (simp add: tick_def perform_def ex_start_def ex_dec_heading_def)
qed

section \<open>Quick-entry processor\<close>

lemma section_loop_no_match:
  "\<forall>b\<in>set blocks. \<not> names_section h b \<Longrightarrow> section_loop blocks h i (-1) = (-1, -1)"
  by (induction blocks arbitrary: i) (auto simp: names_section_def Let_def)

lemma delete_blocks_effects:
  "effects (delete_blocks bs s) = effects s @ map (\<lambda>b. DeleteBlock (block_id b)) bs"
  by (induction bs arbitrary: s) simp_all

text \<open>
  Claim C9. When the record was read and none of its blocks is a heading that names the
  section, \<open>deleteSection\<close> returns \<open>True\<close> and sends no request: after the read the state
  holds the requests it held before.
\<close>

theorem deleteSection_absent:
  assumes "getAllBlocksRecursive_r w (clock s) pageId = Inr blocks"
    and "\<forall>b\<in>set blocks. \<not> names_section sectionHeading b"
  shows "deleteSection w pageId sectionHeading s = (True, tick s) \<and>
         effects (snd (deleteSection w pageId sectionHeading s)) = effects s"
  using assms section_loop_no_match [of blocks sectionHeading 0]
  by (simp add: deleteSection_def)

theorem deleteSection_absent_witness:
  "deleteSection (ex_world ex_task_only ex_project_page) (js ''quick-1'') PROJECT_INFO_HEADING
     ex_start = (True, \<lparr> clock = 1, effects = [] \<rparr>)"
proof -
  have fetch: "getAllBlocksRecursive_r (ex_world ex_task_only ex_project_page) (clock ex_start)
      (js ''quick-1'') = Inr ex_task_only"
    by (simp add: ex_world_def)
  have absent: "\<forall>b\<in>set ex_task_only. \<not> names_section PROJECT_INFO_HEADING b"
    by (simp add: names_section_def ex_task_only_def ex_task_heading_def ex_task_line_def
        PROJECT_INFO_HEADING_def strip_icons_def js_eval)
  from deleteSection_absent [OF fetch absent] show ?thesis
    by (simp add: tick_def ex_start_def)
qed


lemma no_cleanup_refl [simp]: "no_cleanup s s" "no_cleanup s (tick s)"
  by (simp_all add: no_cleanup_def)











lemma processQuickTodo_no_tasks:
  assumes "getAllBlocksRecursive_r w (clock s) (page_id page) = Inr blocks"
    and "processTaskSection toLowerCase w page (extractSectionContent blocks TASK_HEADING)
           (tick s) = (None, s1)"
  shows "processQuickTodo toLowerCase w page s = (None, s1)"
proof -
  have "extractSectionContent blocks TASK_HEADING \<noteq> []"
    using assms(2) by (auto simp: processTaskSection_def)
  with assms show ?thesis by (simp add: processQuickTodo_def)
qed















lemmas quick_eval = ex_inbox_def ex_both_def ex_info_heading_def ex_info_line_def
  ex_task_heading_def ex_task_line_def ex_quick_page_def TASK_HEADING_def
  PROJECT_INFO_HEADING_def strip_icons_def strip_leading_bullet_def extractSectionContent_def











text \<open>
  Neither channel succeeding does not always leave the record as it was: when the first
  task has updated the page and the configuration then cannot be read, the task step
  fails after the update was sent.
\<close>

lemma processQuickTodo_update_then_failure_example:
  "processQuickTodo latin1_toLowerCase ex_world_no_config ex_quick_page ex_start =
     (None, \<lparr> clock = 4,
              effects = [UpdatePage (js ''quick-1'')
                     [(js ''Title'', js ''Send proposal''), (js ''Project'', js ''ClickUp''),
                      (js ''Priority'', js ''High''), (js ''Status'', js ''Backlog'')]] \<rparr>)"
  by (simp add: processQuickTodo_def processTaskSection_def processInfoSection_def cleanup_def
      first_task_updates_def truthy_def ex_task_def ex_world_no_config_def ex_task_only_def
      quick_eval world_eval js_eval)

end
